theory Spec2Isabelle
  imports Main
begin

section \<open>Strings\<close>

text \<open>
  Python strings are modelled as \<open>string\<close>. \<open>str.strip()\<close> without argument removes
  leading and trailing characters for which \<open>str.isspace\<close> holds; below code point 256
  these are 9 to 13, 28 to 32, 133 and 160.
\<close>

definition is_space :: "char \<Rightarrow> bool" where
  "is_space c = ((of_char c :: nat) \<in> {9, 10, 11, 12, 13, 28, 29, 30, 31, 32, 133, 160})"

definition strip :: "string \<Rightarrow> string" where
  "strip s = rev (dropWhile is_space (rev (dropWhile is_space s)))"

text \<open>\<open>s.endswith(suffix)\<close>.\<close>

definition endswith :: "string \<Rightarrow> string \<Rightarrow> bool" where
  "endswith s suffix = (length suffix \<le> length s \<and> drop (length s - length suffix) s = suffix)"

text \<open>\<open>s.startswith(p)\<close>.\<close>

definition startswith :: "string \<Rightarrow> string \<Rightarrow> bool" where
  "startswith s p = (take (length p) s = p)"

text \<open>
  \<open>s.replace(old, new)\<close>: every non-overlapping occurrence of \<open>old\<close>, found from the
  left, is replaced. With an empty \<open>old\<close> Python inserts \<open>new\<close> before every character
  and at the end.
\<close>

function replace_from :: "string \<Rightarrow> string \<Rightarrow> string \<Rightarrow> string" where
  "replace_from old new s =
     (if old = [] \<or> s = [] then s
      else if startswith s old then new @ replace_from old new (drop (length old) s)
      else hd s # replace_from old new (tl s))"
  by pat_completeness auto
termination
  by (relation "measure (\<lambda>(old, new, s). length s)") auto

definition replace :: "string \<Rightarrow> string \<Rightarrow> string \<Rightarrow> string" where
  "replace s old new =
     (if old = [] then new @ concat (map (\<lambda>c. c # new) s) else replace_from old new s)"

text \<open>Truthiness of an optional string: \<open>None\<close> and the empty string are falsy.\<close>

definition truthy :: "string option \<Rightarrow> bool" where
  "truthy v = (case v of None \<Rightarrow> False | Some s \<Rightarrow> s \<noteq> [])"

section \<open>Configuration\<close>

record lang_info =
  lang_name :: string
  lang_deepl :: string

definition LANG_MAP :: "string \<rightharpoonup> lang_info" where
  "LANG_MAP = map_of
     [(''fr'', \<lparr>lang_name = ''French'', lang_deepl = ''FR''\<rparr>),
      (''es'', \<lparr>lang_name = ''Spanish'', lang_deepl = ''ES''\<rparr>),
      (''de'', \<lparr>lang_name = ''German'', lang_deepl = ''DE''\<rparr>)]"

definition LIBRE_SERVERS :: "string list" where
  "LIBRE_SERVERS =
     [''https://translate.argosopentech.com'',
      ''https://libretranslate.de'',
      ''https://libretranslate.com'']"

section \<open>Providers\<close>

text \<open>
  Every request sent to a translation service is recorded, in order, as an event of the
  trace. The services themselves are outside the program: the environment gives, for the
  events so far and the request, what the service answers, so an answer may change from
  one request to the next.
\<close>

datatype py_exception = KeyError | OSError | UnicodeDecodeError | JSONDecodeError

datatype event =
    is_libre_post: LibrePost string string string
  | is_deepl_post: DeeplPost string string
  | is_gpt_create: GptCreate string
  | LoadMemory
  | SaveMemory
  | WriteOutput string
  | LogError string

text \<open>
  \<open>LibreResponse ok t\<close>: \<open>requests.post\<close> returned a response with \<open>response.ok = ok\<close>
  whose JSON body has \<open>translatedText = t\<close> (\<open>None\<close>: reading it raises);
  \<open>LibreRaises\<close>: \<open>requests.post\<close> raised.
\<close>

datatype libre_reply = LibreRaises | LibreResponse bool "string option"

text \<open>
  \<open>DeeplResponse status t\<close>: a response with that status code whose JSON body has
  \<open>translations[0].text = t\<close> (\<open>None\<close>: reading it raises).
\<close>

datatype deepl_reply = DeeplRaises | DeeplResponse nat "string option"

text \<open>
  \<open>GptContent c\<close>: \<open>response.choices[0].message.content = c\<close>; \<open>GptRaises\<close>: the call, or
  reading the content, raised.
\<close>

datatype gpt_reply = GptRaises | GptContent string

record env =
  libre_server :: "event list \<Rightarrow> string \<Rightarrow> string \<Rightarrow> string \<Rightarrow> libre_reply"
  DEEPL_API_KEY :: "string option"
  deepl_server :: "event list \<Rightarrow> string \<Rightarrow> string \<Rightarrow> deepl_reply"
  OPENAI_API_KEY :: "string option"
  openai_importable :: bool
  openai_server :: "event list \<Rightarrow> string \<Rightarrow> gpt_reply"

text \<open>Module level, lines 46 to 53.\<close>

definition has_openai :: "env \<Rightarrow> bool" where
  "has_openai e = (truthy (OPENAI_API_KEY e) \<and> openai_importable e)"

text \<open>The loop of \<open>translate_with_libre\<close> over the servers still to try.\<close>

fun libre_loop :: "env \<Rightarrow> string list \<Rightarrow> string \<Rightarrow> string \<Rightarrow> event list \<Rightarrow> string \<times> event list" where
  "libre_loop e [] text target_lang tr = (text, tr)"
| "libre_loop e (server # rest) text target_lang tr =
     (let tr' = tr @ [LibrePost server text target_lang] in
      case libre_server e tr server text target_lang of
        LibreRaises \<Rightarrow> libre_loop e rest text target_lang tr'
      | LibreResponse ok body \<Rightarrow>
          (if ok then
             (case body of
                None \<Rightarrow> libre_loop e rest text target_lang tr'
              | Some t \<Rightarrow> (t, tr'))
           else libre_loop e rest text target_lang tr'))"

definition translate_with_libre :: "env \<Rightarrow> string \<Rightarrow> string \<Rightarrow> event list \<Rightarrow> string \<times> event list" where
  "translate_with_libre e text target_lang tr = libre_loop e LIBRE_SERVERS text target_lang tr"

definition translate_with_deepl :: "env \<Rightarrow> string \<Rightarrow> string \<Rightarrow> event list \<Rightarrow> string \<times> event list" where
  "translate_with_deepl e text target_lang_code tr =
     (if \<not> truthy (DEEPL_API_KEY e) then (text, tr)
      else
        (let tr' = tr @ [DeeplPost text target_lang_code] in
         case deepl_server e tr text target_lang_code of
           DeeplRaises \<Rightarrow> (text, tr')
         | DeeplResponse status body \<Rightarrow>
             (if status \<noteq> 200 then (text, tr')
              else (case body of None \<Rightarrow> (text, tr') | Some t \<Rightarrow> (t, tr')))))"

text \<open>
  The prompt is built inside the \<open>try\<close>, so a target language missing from \<open>LANG_MAP\<close>
  is caught there and the translation is returned.
\<close>

definition gpt_prompt :: "string \<Rightarrow> string \<Rightarrow> string \<Rightarrow> string" where
  "gpt_prompt language_name text translation =
     ''Improve this '' @ language_name @ '' translation if needed.'' @ [CHR 0x0A]
       @ ''English: '' @ text @ [CHR 0x0A] @ ''Translation: '' @ translation"

definition refine_with_gpt :: "env \<Rightarrow> string \<Rightarrow> string \<Rightarrow> string \<Rightarrow> event list \<Rightarrow> string \<times> event list" where
  "refine_with_gpt e text translation target_lang tr =
     (if \<not> has_openai e then (translation, tr)
      else
        (case LANG_MAP target_lang of
           None \<Rightarrow> (translation, tr)
         | Some info \<Rightarrow>
             (let prompt = gpt_prompt (lang_name info) text translation;
                  tr' = tr @ [GptCreate prompt] in
              case openai_server e tr prompt of
                GptRaises \<Rightarrow> (translation, tr')
              | GptContent c \<Rightarrow> (strip c, tr'))))"

text \<open>
  A failure of the refinement step: the service is available and either building the
  prompt raises or the request does.
\<close>

definition gpt_fails :: "env \<Rightarrow> string \<Rightarrow> string \<Rightarrow> string \<Rightarrow> event list \<Rightarrow> bool" where
  "gpt_fails e text translation target_lang tr =
     (has_openai e \<and>
      (case LANG_MAP target_lang of
         None \<Rightarrow> True
       | Some info \<Rightarrow> openai_server e tr (gpt_prompt (lang_name info) text translation) = GptRaises))"

section \<open>The resolver\<close>

text \<open>
  The memory is a dictionary from strings to strings, mutated in place; the model returns
  the state after the call together with the result, also when the call raises.
\<close>

record state =
  memory :: "string \<rightharpoonup> string"
  trace :: "event list"

text \<open>
  Lines 140 to 148: the bulk provider, then the paid provider when the bulk provider
  returned the text it was given. \<open>LANG_MAP[target_lang]\<close> raises \<open>KeyError\<close> for a
  language that is not in the table.
\<close>

definition candidate_translation ::
    "env \<Rightarrow> string \<Rightarrow> string \<Rightarrow> event list \<Rightarrow> (py_exception + string) \<times> event list" where
  "candidate_translation e original target_lang tr =
     (let (libre, tr1) = translate_with_libre e original target_lang tr in
      if libre = original then
        (case LANG_MAP target_lang of
           None \<Rightarrow> (Inl KeyError, tr1)
         | Some info \<Rightarrow>
             (let (deepl, tr2) = translate_with_deepl e original (lang_deepl info) tr1
              in (Inr deepl, tr2)))
      else (Inr libre, tr1))"

definition apply_translation :: "env \<Rightarrow> string \<Rightarrow> state \<Rightarrow> string \<Rightarrow> (py_exception + string) \<times> state" where
  "apply_translation e text st target_lang =
     (let original = strip text in
      if original = [] then (Inr original, st)
      else
        (case memory st original of
           Some v \<Rightarrow> (Inr v, st)
         | None \<Rightarrow>
             (case candidate_translation e original target_lang (trace st) of
                (Inl exn, tr2) \<Rightarrow> (Inl exn, st\<lparr>trace := tr2\<rparr>)
              | (Inr deepl, tr2) \<Rightarrow>
                  (if deepl = original then
                     (Inr original, \<lparr>memory = (memory st)(original \<mapsto> original), trace = tr2\<rparr>)
                   else
                     (let (final, tr3) = refine_with_gpt e original deepl target_lang tr2 in
                      (Inr final, \<lparr>memory = (memory st)(original \<mapsto> final), trace = tr3\<rparr>))))))"

text \<open>
  A sequence of calls on the same memory, as the loops of \<open>translate_html_file\<close> make
  them: each call sees the memory the previous one left, and an exception ends the
  sequence.
\<close>

fun resolve_all :: "env \<Rightarrow> string \<Rightarrow> string list \<Rightarrow> state \<Rightarrow> (py_exception + string list) \<times> state" where
  "resolve_all e target_lang [] st = (Inr [], st)"
| "resolve_all e target_lang (text # rest) st =
     (case apply_translation e text st target_lang of
        (Inl exn, st1) \<Rightarrow> (Inl exn, st1)
      | (Inr r, st1) \<Rightarrow>
          (case resolve_all e target_lang rest st1 of
             (Inl exn, st2) \<Rightarrow> (Inl exn, st2)
           | (Inr rs, st2) \<Rightarrow> (Inr (r # rs), st2)))"

text \<open>
  Every run of the provider chain for a string starts with one request for that string
  to the first bulk server, and no other request goes to it: the number of these requests
  in a trace is the number of runs of the chain.
\<close>

definition chain_runs :: "string \<Rightarrow> string \<Rightarrow> event list \<Rightarrow> nat" where
  "chain_runs target_lang t tr = count_list tr (LibrePost (hd LIBRE_SERVERS) t target_lang)"

section \<open>The resolver as the specification words it\<close>

text \<open>
  Section 4.2 of the specification: the bulk provider; the paid provider, invoked only
  when the bulk provider failed (returned its input); the refinement pass, invoked only
  when the result so far is not identical to the source text.
\<close>

definition deepl_code :: "string \<Rightarrow> string" where
  "deepl_code target_lang =
     (case LANG_MAP target_lang of None \<Rightarrow> [] | Some info \<Rightarrow> lang_deepl info)"

definition spec_chain :: "env \<Rightarrow> string \<Rightarrow> string \<Rightarrow> event list \<Rightarrow> string \<times> event list" where
  "spec_chain e t target_lang tr =
     (let (r1, tr1) = translate_with_libre e t target_lang tr;
          (r2, tr2) = (if r1 = t then translate_with_deepl e t (deepl_code target_lang) tr1
                       else (r1, tr1));
          (r3, tr3) = (if r2 \<noteq> t then refine_with_gpt e t r2 target_lang tr2 else (r2, tr2))
      in (r3, tr3))"

text \<open>Section 4.3 of the specification, steps 1 to 5.\<close>

definition spec_resolve :: "env \<Rightarrow> string \<Rightarrow> state \<Rightarrow> string \<Rightarrow> string \<times> state" where
  "spec_resolve e text st target_lang =
     (let t = strip text in
      if t = [] then (t, st)
      else if t \<in> dom (memory st) then (the (memory st t), st)
      else
        (let (final, tr') = spec_chain e t target_lang (trace st) in
         if final = t then (t, \<lparr>memory = (memory st)(t \<mapsto> t), trace = tr'\<rparr>)
         else (final, \<lparr>memory = (memory st)(t \<mapsto> final), trace = tr'\<rparr>)))"

section \<open>Environments used as examples\<close>

text \<open>
  A bulk provider that always returns its input, a paid provider that returns the
  language code it is given, a colon and the text, and no refinement service.
\<close>

definition fallback_env :: env where
  "fallback_env =
     \<lparr>libre_server = (\<lambda>tr server text target. LibreResponse True (Some text)),
      DEEPL_API_KEY = Some ''secret'',
      deepl_server = (\<lambda>tr text code. DeeplResponse 200 (Some (code @ '':'' @ text))),
      OPENAI_API_KEY = None,
      openai_importable = False,
      openai_server = (\<lambda>tr prompt. GptRaises)\<rparr>"

text \<open>The same providers with a refinement service whose every call fails.\<close>

definition failing_gpt_env :: env where
  "failing_gpt_env = fallback_env\<lparr>OPENAI_API_KEY := Some ''secret'', openai_importable := True\<rparr>"

text \<open>
  A bulk provider whose first server translates every text to \<open>Bonjour\<close>, and neither
  credential set.
\<close>

definition bonjour_env :: env where
  "bonjour_env =
     \<lparr>libre_server = (\<lambda>tr server text target. LibreResponse True (Some ''Bonjour'')),
      DEEPL_API_KEY = None,
      deepl_server = (\<lambda>tr text code. DeeplRaises),
      OPENAI_API_KEY = None,
      openai_importable = True,
      openai_server = (\<lambda>tr prompt. GptRaises)\<rparr>"

definition empty_state :: state where
  "empty_state = \<lparr>memory = Map.empty, trace = []\<rparr>"

definition hola_state :: state where
  "hola_state = \<lparr>memory = [''Hello'' \<mapsto> ''Hola''], trace = []\<rparr>"

section \<open>The memory store\<close>

text \<open>
  What \<open>translation_db.json\<close> is when the program looks at it: absent; present but such
  that \<open>open\<close> raises (a directory, no permission); bytes that are not UTF-8; text that
  is not JSON; or a JSON object of strings. A well-formed memory file holds such an
  object, as \<open>save_memory\<close> writes one.
\<close>

datatype storage = NoFile | CannotOpen | NotUtf8 | NotJson | Stored "string \<rightharpoonup> string"

text \<open>\<open>os.path.exists(TRANSLATION_MEMORY)\<close>.\<close>

definition path_exists :: "storage \<Rightarrow> bool" where
  "path_exists s = (s \<noteq> NoFile)"

text \<open>
  \<open>open(TRANSLATION_MEMORY, 'r', encoding='utf-8')\<close> followed by \<open>json.load(f)\<close>:
  \<open>open\<close> raises \<open>OSError\<close>, reading bytes that are not UTF-8 raises
  \<open>UnicodeDecodeError\<close>, parsing raises \<open>json.JSONDecodeError\<close>.
\<close>

definition open_and_json_load :: "storage \<Rightarrow> py_exception + (string \<rightharpoonup> string)" where
  "open_and_json_load s =
     (case s of
        NoFile \<Rightarrow> Inl OSError
      | CannotOpen \<Rightarrow> Inl OSError
      | NotUtf8 \<Rightarrow> Inl UnicodeDecodeError
      | NotJson \<Rightarrow> Inl JSONDecodeError
      | Stored m \<Rightarrow> Inr m)"

text \<open>
  \<open>load_memory\<close>, lines 56 to 64. The \<open>except\<close> clause names \<open>json.JSONDecodeError\<close>
  only; any other exception leaves the function. The events returned are the call itself
  and the error it logs.
\<close>

definition load_memory :: "storage \<Rightarrow> (py_exception + (string \<rightharpoonup> string)) \<times> event list" where
  "load_memory s =
     (if path_exists s then
        (case open_and_json_load s of
           Inr m \<Rightarrow> (Inr m, [LoadMemory])
         | Inl exn \<Rightarrow>
             (if exn = JSONDecodeError then
                (Inr Map.empty,
                 [LoadMemory, LogError ''Error parsing translation_db.json. Creating new memory.''])
              else (Inl exn, [LoadMemory])))
      else (Inr Map.empty, [LoadMemory]))"

text \<open>
  \<open>save_memory\<close>, lines 66 to 71: \<open>except Exception\<close> catches every failure and logs it.
  A save either replaces the stored mapping or fails at \<open>open\<close> and leaves the file as
  it was.
\<close>

definition save_memory :: "bool \<Rightarrow> (string \<rightharpoonup> string) \<Rightarrow> storage \<Rightarrow> storage \<times> event list" where
  "save_memory unwritable m s =
     (if unwritable then (s, [SaveMemory, LogError ''Failed to save translation memory''])
      else (Stored m, [SaveMemory]))"

section \<open>The document walker\<close>

text \<open>
  The parsed document, as far as \<open>translate_html_file\<close> looks at it: whether there is an
  \<open>html\<close>, a \<open>head\<close> and a \<open>body\<close> element, the \<open>a\<close> and \<open>img\<close> elements in document
  order (\<open>soup.find_all(['a', 'img'])\<close>), the strings in document order
  (\<open>soup.find_all(string=True)\<close>) with the name of their parent, and what has been
  appended to the head and to the body.
\<close>

record tag =
  tag_name :: string
  attrs :: "string \<rightharpoonup> string"

record text_node =
  parent_name :: string
  content :: string

record document =
  has_html :: bool
  html_lang :: "string option"
  tags :: "tag list"
  strings :: "text_node list"
  has_head :: bool
  has_body :: bool
  head_appended :: "string list"
  body_appended :: "string list"

definition INJECT_HEAD :: "string list" where
  \<open>INJECT_HEAD =
     [''<meta name="robots" content="index, follow">'',
      ''<meta name="viewport" content="width=device-width, initial-scale=1.0">'']\<close>

definition INJECT_BODY :: "string list" where
  \<open>INJECT_BODY =
     [''<script src="/scripts/custom.js"></script>'',
      ''<script>console.log("Translated version loaded")</script>'']\<close>

text \<open>
  \<open>re.sub(r'\.html$', repl, s)\<close> for a replacement without backslash, which stands for
  itself: \<open>$\<close> matches at the end of the string and before a newline that ends it.
  The replacements that reach it are made of a target language of \<open>LANG_MAP\<close>, which
  \<open>main\<close> checks before any file is processed.
\<close>

definition re_sub_html_end :: "string \<Rightarrow> string \<Rightarrow> string" where
  "re_sub_html_end repl s =
     (if endswith s ''.html'' then take (length s - 5) s @ repl
      else if endswith s (''.html'' @ [CHR 0x0A]) then take (length s - 6) s @ repl @ [CHR 0x0A]
      else s)"

text \<open>Lines 204 to 208.\<close>

definition rewrite_href :: "string \<Rightarrow> tag \<Rightarrow> tag" where
  "rewrite_href target_lang t =
     (if tag_name t = ''a'' then
        (case attrs t ''href'' of
           None \<Rightarrow> t
         | Some href \<Rightarrow>
             (if href \<noteq> [] \<and> endswith href ''.html''
                 \<and> \<not> endswith href (''-'' @ target_lang @ ''.html'')
              then t\<lparr>attrs := (attrs t)(''href'' \<mapsto> re_sub_html_end (''-'' @ target_lang @ ''.html'') href)\<rparr>
              else t))
      else t)"

text \<open>Lines 211 to 213, the loop over the attributes still to look at.\<close>

fun translate_attrs :: "env \<Rightarrow> string \<Rightarrow> string list \<Rightarrow> tag \<Rightarrow> state \<Rightarrow> (py_exception + tag) \<times> state" where
  "translate_attrs e target_lang [] t st = (Inr t, st)"
| "translate_attrs e target_lang (attr # rest) t st =
     (case attrs t attr of
        None \<Rightarrow> translate_attrs e target_lang rest t st
      | Some v \<Rightarrow>
          (if v = [] then translate_attrs e target_lang rest t st
           else
             (case apply_translation e v st target_lang of
                (Inl exn, st1) \<Rightarrow> (Inl exn, st1)
              | (Inr r, st1) \<Rightarrow>
                  translate_attrs e target_lang rest (t\<lparr>attrs := (attrs t)(attr \<mapsto> r)\<rparr>) st1)))"

text \<open>The body of the loop of lines 203 to 213 for one element.\<close>

definition process_tag :: "env \<Rightarrow> string \<Rightarrow> tag \<Rightarrow> state \<Rightarrow> (py_exception + tag) \<times> state" where
  "process_tag e target_lang t st =
     (let t1 = rewrite_href target_lang t in
      if tag_name t1 = ''img'' then translate_attrs e target_lang [''alt'', ''title''] t1 st
      else (Inr t1, st))"

fun process_tags :: "env \<Rightarrow> string \<Rightarrow> tag list \<Rightarrow> state \<Rightarrow> (py_exception + tag list) \<times> state" where
  "process_tags e target_lang [] st = (Inr [], st)"
| "process_tags e target_lang (t # rest) st =
     (case process_tag e target_lang t st of
        (Inl exn, st1) \<Rightarrow> (Inl exn, st1)
      | (Inr t', st1) \<Rightarrow>
          (case process_tags e target_lang rest st1 of
             (Inl exn, st2) \<Rightarrow> (Inl exn, st2)
           | (Inr rest', st2) \<Rightarrow> (Inr (t' # rest'), st2)))"

text \<open>
  Lines 216 to 226: the strings, with the number of replacements made so far. A string
  is replaced only when its translation differs from its trimmed content.
\<close>

fun translate_strings ::
    "env \<Rightarrow> string \<Rightarrow> text_node list \<Rightarrow> state \<Rightarrow> nat \<Rightarrow> (py_exception + text_node list \<times> nat) \<times> state" where
  "translate_strings e target_lang [] st translation_count = (Inr ([], translation_count), st)"
| "translate_strings e target_lang (element # rest) st translation_count =
     (let clean = strip (content element) in
      case (if parent_name element = ''script'' \<or> parent_name element = ''style'' \<or> clean = []
            then (Inr (element, translation_count), st)
            else
              (case apply_translation e clean st target_lang of
                 (Inl exn, st1) \<Rightarrow> (Inl exn, st1)
               | (Inr translated, st1) \<Rightarrow>
                   (if translated \<noteq> clean
                    then (Inr (element\<lparr>content := translated\<rparr>, Suc translation_count), st1)
                    else (Inr (element, translation_count), st1)))) of
        (Inl exn, st1) \<Rightarrow> (Inl exn, st1)
      | (Inr (element', count'), st1) \<Rightarrow>
          (case translate_strings e target_lang rest st1 count' of
             (Inl exn, st2) \<Rightarrow> (Inl exn, st2)
           | (Inr (rest', n), st2) \<Rightarrow> (Inr (element' # rest', n), st2)))"

definition inject_code :: "document \<Rightarrow> document" where
  "inject_code soup =
     (let soup1 = (if has_head soup then soup\<lparr>head_appended := head_appended soup @ INJECT_HEAD\<rparr>
                   else soup)
      in if has_body soup1 then soup1\<lparr>body_appended := body_appended soup1 @ INJECT_BODY\<rparr>
         else soup1)"

section \<open>The file pipeline\<close>

text \<open>
  The files the program reads and writes: a path is absent, present but not readable as
  text, or holds a text; \<open>unwritable\<close> holds the paths that cannot be opened for
  writing. \<open>log\<close> is the trace of the run.
\<close>

record world =
  files :: "string \<rightharpoonup> string option"
  unwritable :: "string set"
  store :: storage
  store_unwritable :: bool
  log :: "event list"

text \<open>The HTML library: \<open>BeautifulSoup(content, 'html.parser')\<close>, which may raise, and \<open>prettify\<close>.\<close>

record html_lib =
  parse :: "string \<Rightarrow> document option"
  prettify :: "document \<Rightarrow> string"

text \<open>Line 176.\<close>

definition output_path :: "string \<Rightarrow> string \<Rightarrow> string" where
  "output_path file_path target_lang = replace file_path ''.html'' (''-'' @ target_lang @ ''.html'')"

text \<open>Lines 196 to 240, once the document is parsed.\<close>

definition walk_and_write ::
    "html_lib \<Rightarrow> env \<Rightarrow> string \<Rightarrow> string \<Rightarrow> (string \<rightharpoonup> string) \<Rightarrow> document \<Rightarrow> world
      \<Rightarrow> (py_exception + bool) \<times> world" where
  "walk_and_write lib e out_path target_lang mem soup w =
     (let soup1 = (if has_html soup then soup\<lparr>html_lang := Some target_lang\<rparr> else soup) in
      case process_tags e target_lang (tags soup1) \<lparr>memory = mem, trace = log w\<rparr> of
        (Inl exn, st1) \<Rightarrow> (Inl exn, w\<lparr>log := trace st1\<rparr>)
      | (Inr tags', st1) \<Rightarrow>
          (case translate_strings e target_lang (strings soup1) st1 0 of
             (Inl exn, st2) \<Rightarrow> (Inl exn, w\<lparr>log := trace st2\<rparr>)
           | (Inr (strings', translation_count), st2) \<Rightarrow>
               (let soup2 = inject_code (soup1\<lparr>tags := tags', strings := strings'\<rparr>) in
                if out_path \<in> unwritable w then
                  (Inr False, w\<lparr>log := trace st2 @ [LogError ''Failed to save'']\<rparr>)
                else
                  (let (store', saved) = save_memory (store_unwritable w) (memory st2) (store w) in
                   (Inr True,
                    w\<lparr>files := (files w)(out_path \<mapsto> Some (prettify lib soup2)),
                      store := store',
                      log := trace st2 @ [WriteOutput out_path] @ saved\<rparr>)))))"

text \<open>\<open>translate_html_file\<close>, lines 174 to 194, then the walk.\<close>

definition translate_html_file ::
    "html_lib \<Rightarrow> env \<Rightarrow> string \<Rightarrow> string \<Rightarrow> bool \<Rightarrow> world \<Rightarrow> (py_exception + bool) \<times> world" where
  "translate_html_file lib e file_path target_lang force w =
     (let (loaded, events) = load_memory (store w);
          w1 = w\<lparr>log := log w @ events\<rparr> in
      case loaded of
        Inl exn \<Rightarrow> (Inl exn, w1)
      | Inr mem \<Rightarrow>
          (let out_path = output_path file_path target_lang in
           if files w1 out_path \<noteq> None \<and> \<not> force then (Inr False, w1)
           else
             (case files w1 file_path of
                None \<Rightarrow> (Inr False, w1\<lparr>log := log w1 @ [LogError ''Failed to read or parse'']\<rparr>)
              | Some None \<Rightarrow> (Inr False, w1\<lparr>log := log w1 @ [LogError ''Failed to read or parse'']\<rparr>)
              | Some (Some file_content) \<Rightarrow>
                  (if strip file_content = [] then (Inr False, w1)
                   else
                     (case parse lib file_content of
                        None \<Rightarrow> (Inr False, w1\<lparr>log := log w1 @ [LogError ''Failed to read or parse'']\<rparr>)
                      | Some soup \<Rightarrow> walk_and_write lib e out_path target_lang mem soup w1)))))"

text \<open>The loop of the main block over the files found.\<close>

fun process_files ::
    "html_lib \<Rightarrow> env \<Rightarrow> string list \<Rightarrow> string \<Rightarrow> bool \<Rightarrow> nat \<Rightarrow> world \<Rightarrow> (py_exception + nat) \<times> world" where
  "process_files lib e [] target_lang force success_count w = (Inr success_count, w)"
| "process_files lib e (file # rest) target_lang force success_count w =
     (case translate_html_file lib e file target_lang force w of
        (Inl exn, w1) \<Rightarrow> (Inl exn, w1)
      | (Inr translated, w1) \<Rightarrow>
          process_files lib e rest target_lang force
            (if translated then Suc success_count else success_count) w1)"

text \<open>
  The main block, once the arguments are parsed and the files found: \<open>html_files\<close> is the
  list the block has computed. An unsupported language and an empty list end the process
  with status 1 before any file is touched.
\<close>

datatype outcome = Exit nat | Raised py_exception | Completed nat

definition main :: "html_lib \<Rightarrow> env \<Rightarrow> string \<Rightarrow> bool \<Rightarrow> string list \<Rightarrow> world \<Rightarrow> outcome \<times> world" where
  "main lib e args_lang args_force html_files w =
     (if LANG_MAP args_lang = None then
        (Exit 1, w\<lparr>log := log w @ [LogError ''Unsupported language'']\<rparr>)
      else if html_files = [] then
        (Exit 1, w\<lparr>log := log w @ [LogError ''No HTML files found'']\<rparr>)
      else
        (case process_files lib e html_files args_lang args_force 0 w of
           (Inl exn, w1) \<Rightarrow> (Raised exn, w1)
         | (Inr success_count, w1) \<Rightarrow> (Completed success_count, w1)))"

text \<open>How often the memory was loaded and saved in a trace.\<close>

definition loads :: "event list \<Rightarrow> nat" where
  "loads tr = length (filter (\<lambda>ev. ev = LoadMemory) tr)"

definition saves :: "event list \<Rightarrow> nat" where
  "saves tr = length (filter (\<lambda>ev. ev = SaveMemory) tr)"

section \<open>The selection of the input files\<close>

text \<open>\<open>s.split(sep)\<close> for a separator of one character.\<close>

fun split_on :: "char \<Rightarrow> string \<Rightarrow> string list" where
  "split_on sep [] = [[]]"
| "split_on sep (c # cs) =
     (if c = sep then [] # split_on sep cs
      else (case split_on sep cs of [] \<Rightarrow> [[c]] | x # xs \<Rightarrow> (c # x) # xs))"

text \<open>\<open>os.path.join(directory, file)\<close> for a file name without slash, on POSIX.\<close>

definition os_path_join :: "string \<Rightarrow> string \<Rightarrow> string" where
  "os_path_join directory file =
     (if directory = [] \<or> last directory = CHR ''/'' then directory @ file
      else directory @ ''/'' @ file)"

text \<open>\<open>os.path.basename(path)\<close>: what follows the last slash.\<close>

definition basename :: "string \<Rightarrow> string" where
  "basename path = rev (takeWhile (\<lambda>c. c \<noteq> CHR ''/'') (rev path))"

text \<open>
  The default exclusion patterns of \<open>find_html_files\<close> (line 246). On a name that ends
  in \<open>.html\<close>, \<open>re.search\<close> with one of them succeeds exactly when the name ends in one of
  these suffixes.
\<close>

definition DEFAULT_EXCLUDED :: "string list" where
  "DEFAULT_EXCLUDED =
     [''head.html'', ''body.html'', ''injection.html'', ''template.html'',
      ''-fr.html'', ''-es.html'', ''-de.html'']"

text \<open>
  \<open>find_html_files\<close> with its default patterns, lines 242 to 246 and 445 to 461. The
  directory is given by its listing: the names \<open>os.listdir\<close> returns, each with whether
  \<open>os.path.isfile\<close> holds of the joined path.
\<close>

definition find_html_files :: "string \<Rightarrow> (string \<times> bool) list \<Rightarrow> string list" where
  "find_html_files directory listing =
     map (\<lambda>(file, is_file). os_path_join directory file)
       (filter (\<lambda>(file, is_file).
                  endswith file ''.html''
                  \<and> \<not> list_ex (\<lambda>suffix. endswith file suffix) DEFAULT_EXCLUDED
                  \<and> is_file)
          listing)"

text \<open>
  Modelled from the spec: the restriction of the input set by \<open>--include\<close>. The source
  declares the option (line 255) and its help text, but the statements of the main block
  that compute \<open>html_files\<close> from the arguments lie beyond the point where the source file
  breaks off. Section 6 of the specification: \<open>--include <comma-list>\<close> restricts
  processing to specific named files. The names are the entries of the comma-separated
  list, trimmed; a path found in the directory is listed when its file name, the part
  after the last slash, is one of them.
\<close>

definition included_names :: "string \<Rightarrow> string list" where
  "included_names comma_list = filter (\<lambda>name. name \<noteq> []) (map strip (split_on CHR '','' comma_list))"

definition listed :: "string \<Rightarrow> string \<Rightarrow> bool" where
  "listed comma_list path = (basename path \<in> set (included_names comma_list))"

definition restrict_to_included :: "string option \<Rightarrow> string list \<Rightarrow> string list" where
  "restrict_to_included include found =
     (case include of
        None \<Rightarrow> found
      | Some comma_list \<Rightarrow> filter (listed comma_list) found)"

text \<open>
  Modelled from the spec: the main block with the option honoured. The files are found
  by \<open>find_html_files\<close>, restricted to the listed ones, and the rest of the main block
  (the check for an empty list and the per-file loop, from the source) runs on them.
\<close>

definition main_with_include ::
    "html_lib \<Rightarrow> env \<Rightarrow> string \<Rightarrow> bool \<Rightarrow> string option \<Rightarrow> string \<Rightarrow> (string \<times> bool) list \<Rightarrow> world
      \<Rightarrow> outcome \<times> world" where
  "main_with_include lib e args_lang args_force args_include args_dir listing w =
     main lib e args_lang args_force
       (restrict_to_included args_include (find_html_files args_dir listing)) w"

section \<open>Documents and files used as examples\<close>

definition about_link :: tag where
  "about_link = \<lparr>tag_name = ''a'', attrs = [''href'' \<mapsto> ''about.html'']\<rparr>"

definition about_fr_link :: tag where
  "about_fr_link = \<lparr>tag_name = ''a'', attrs = [''href'' \<mapsto> ''about-fr.html'']\<rparr>"

definition example_link :: tag where
  "example_link = \<lparr>tag_name = ''a'', attrs = [''href'' \<mapsto> ''https://example.com'']\<rparr>"

text \<open>
  A stand-in for the HTML library: a file is one paragraph holding its text, and is
  written back as that text.
\<close>

definition toy_lib :: html_lib where
  "toy_lib =
     \<lparr>parse = (\<lambda>s. Some \<lparr>has_html = True, html_lang = None, tags = [],
                           strings = [\<lparr>parent_name = ''p'', content = s\<rparr>],
                           has_head = False, has_body = True,
                           head_appended = [], body_appended = []\<rparr>),
      prettify = (\<lambda>soup. concat (map content (strings soup)))\<rparr>"


text \<open>
  A directory with two pages, a fragment that the default patterns exclude and a
  subdirectory; no memory file yet, everything writable.
\<close>

definition site_listing :: "(string \<times> bool) list" where
  "site_listing = [(''a.html'', True), (''b.html'', True), (''head.html'', True), (''old.html'', False)]"

definition site :: world where
  "site =
     \<lparr>files = [''./a.html'' \<mapsto> Some ''Hello'', ''./b.html'' \<mapsto> Some ''Hello'',
               ''./head.html'' \<mapsto> Some ''Hello''],
      unwritable = {},
      store = NoFile,
      store_unwritable = False,
      log = []\<rparr>"

section \<open>Traces\<close>

text \<open>A request to one of the translation services.\<close>

definition is_request :: "event \<Rightarrow> bool" where
  "is_request ev = (is_libre_post ev \<or> is_deepl_post ev \<or> is_gpt_create ev)"

text \<open>The trace \<open>tr'\<close> is the trace \<open>tr\<close> followed by requests only.\<close>

definition sends :: "event list \<Rightarrow> event list \<Rightarrow> bool" where
  "sends tr tr' = (\<exists>new. tr' = tr @ new \<and> (\<forall>ev \<in> set new. is_request ev))"

text \<open>What ends the trace of a call of \<open>translate_html_file\<close> that returned \<open>result\<close>.\<close>

definition file_tail :: "string \<Rightarrow> py_exception + bool \<Rightarrow> event list \<Rightarrow> bool" where
  "file_tail out_path result tail =
     (if result = Inr True then
        tail = [WriteOutput out_path, SaveMemory]
        \<or> tail = [WriteOutput out_path, SaveMemory, LogError ''Failed to save translation memory'']
      else tail = [] \<or> (\<exists>msg. tail = [LogError msg]))"



section \<open>Properties of the resolver\<close>

lemma supported_lang: "target_lang \<in> dom LANG_MAP \<Longrightarrow> \<exists>info. LANG_MAP target_lang = Some info"
  by auto

text \<open>
  Claim C1. With a supported target language, \<open>apply_translation\<close> computes what steps 1
  to 5 of the specified algorithm compute: the result, the memory and the requests sent
  are the same. In particular a text that is empty once trimmed is returned as the empty
  string, with the memory and the trace untouched.
\<close>

theorem apply_translation_follows_spec:
  assumes "target_lang \<in> dom LANG_MAP"
  shows "apply_translation e text st target_lang =
           (Inr (fst (spec_resolve e text st target_lang)), snd (spec_resolve e text st target_lang))
         \<and> (strip text = [] \<longrightarrow> apply_translation e text st target_lang = (Inr [], st))"
proof -
  from assms obtain info where info: "LANG_MAP target_lang = Some info"
    by auto
  show ?thesis
    by (auto simp: apply_translation_def candidate_translation_def spec_resolve_def
        spec_chain_def deepl_code_def info Let_def split: option.splits prod.splits if_splits)
qed

theorem apply_translation_follows_spec_witness:
  "''es'' \<in> dom LANG_MAP
   \<and> apply_translation fallback_env ''  Hello '' empty_state ''es'' =
       (Inr (fst (spec_resolve fallback_env ''  Hello '' empty_state ''es'')),
        snd (spec_resolve fallback_env ''  Hello '' empty_state ''es''))
   \<and> apply_translation fallback_env ''   '' empty_state ''es'' = (Inr [], empty_state)"
proof -
  have l: "''es'' \<in> dom LANG_MAP"
    by (simp add: LANG_MAP_def)
  have s: "strip ''   '' = []"
    by (simp add: strip_def is_space_def)
  note t1 = apply_translation_follows_spec [OF l, of fallback_env "''  Hello ''" empty_state]
  note t2 = apply_translation_follows_spec [OF l, of fallback_env "''   ''" empty_state]
  from t2 s have "apply_translation fallback_env ''   '' empty_state ''es'' = (Inr [], empty_state)"
    by blast
  with t1 l show ?thesis
    by blast
qed

subsection \<open>What a call adds to the trace and to the memory\<close>

lemma libre_loop_count:
  "ev \<notin> (\<lambda>server. LibrePost server text target_lang) ` set servers \<Longrightarrow>
   count_list (snd (libre_loop e servers text target_lang tr)) ev = count_list tr ev"
  by (induction servers arbitrary: tr)
     (auto simp: Let_def split: libre_reply.splits option.splits)

lemma libre_loop_first:
  assumes "server \<notin> set rest"
  shows "count_list (snd (libre_loop e (server # rest) text target_lang tr)) (LibrePost server u target_lang) =
     count_list tr (LibrePost server u target_lang) + (if u = text then 1 else 0)"
proof -
  have rest: "count_list (snd (libre_loop e rest text target_lang tr')) (LibrePost server u' target_lang)
      = count_list tr' (LibrePost server u' target_lang)" for tr' u'
    by (rule libre_loop_count) (use assms in auto)
  show ?thesis
    by (auto simp: Let_def rest split: libre_reply.splits option.splits)
qed

lemma LIBRE_SERVERS_first:
  "LIBRE_SERVERS = hd LIBRE_SERVERS # tl LIBRE_SERVERS \<and> hd LIBRE_SERVERS \<notin> set (tl LIBRE_SERVERS)"
  by (simp add: LIBRE_SERVERS_def)

lemma translate_with_libre_runs:
  "chain_runs target_lang u (snd (translate_with_libre e text target_lang tr)) =
     chain_runs target_lang u tr + (if u = text then 1 else 0)"
proof -
  from LIBRE_SERVERS_first have s: "LIBRE_SERVERS = hd LIBRE_SERVERS # tl LIBRE_SERVERS"
    and d: "hd LIBRE_SERVERS \<notin> set (tl LIBRE_SERVERS)"
    by blast+
  have "translate_with_libre e text target_lang tr =
      libre_loop e (hd LIBRE_SERVERS # tl LIBRE_SERVERS) text target_lang tr"
    unfolding translate_with_libre_def using s by simp
  then show ?thesis
    unfolding chain_runs_def using libre_loop_first [OF d] by simp
qed

lemma translate_with_deepl_runs:
  "chain_runs target_lang u (snd (translate_with_deepl e text code tr)) = chain_runs target_lang u tr"
  by (auto simp: translate_with_deepl_def chain_runs_def Let_def
      split: deepl_reply.splits option.splits)

lemma refine_with_gpt_runs:
  "chain_runs target_lang u (snd (refine_with_gpt e text translation l tr)) = chain_runs target_lang u tr"
  by (auto simp: refine_with_gpt_def chain_runs_def Let_def
      split: gpt_reply.splits option.splits)

lemma candidate_translation_runs:
  "chain_runs target_lang u (snd (candidate_translation e text target_lang tr)) =
     chain_runs target_lang u tr + (if u = text then 1 else 0)"
  by (simp add: candidate_translation_def Let_def case_prod_beta translate_with_libre_runs
      translate_with_deepl_runs split: option.splits)

lemma apply_translation_runs:
  "chain_runs target_lang u (trace (snd (apply_translation e text st target_lang))) =
     chain_runs target_lang u (trace st)
       + (if strip text = u \<and> u \<noteq> [] \<and> memory st u = None then 1 else 0)"
  by (auto simp: apply_translation_def Let_def case_prod_beta candidate_translation_runs
      refine_with_gpt_runs split: option.splits sum.splits)

lemma apply_translation_hit:
  "strip text \<noteq> [] \<Longrightarrow> memory st (strip text) = Some v \<Longrightarrow>
   apply_translation e text st target_lang = (Inr v, st)"
  by (simp add: apply_translation_def)

lemma apply_translation_memory:
  "memory (snd (apply_translation e text st target_lang)) = memory st
   \<or> (strip text \<noteq> [] \<and> memory st (strip text) = None
      \<and> (\<exists>v. fst (apply_translation e text st target_lang) = Inr v
             \<and> memory (snd (apply_translation e text st target_lang)) = (memory st)(strip text \<mapsto> v)))"
  by (auto simp: apply_translation_def Let_def split: prod.splits option.splits sum.splits)

lemma apply_translation_mono:
  "memory st \<subseteq>\<^sub>m memory (snd (apply_translation e text st target_lang))"
  using apply_translation_memory [of e "text" st target_lang]
  by (auto simp: map_le_def)

lemma apply_translation_stored:
  "apply_translation e text st target_lang = (Inr r, st') \<Longrightarrow> strip text \<noteq> [] \<Longrightarrow>
   memory st' (strip text) = Some r"
  by (auto simp: apply_translation_def Let_def split: prod.splits option.splits sum.splits if_splits)

subsection \<open>Sequences of calls\<close>

lemma resolve_all_mono:
  "memory st \<subseteq>\<^sub>m memory (snd (resolve_all e target_lang texts st))"
proof (induction texts arbitrary: st)
  case Nil
  show ?case by simp
next
  case (Cons x rest)
  obtain r st1 where a: "apply_translation e x st target_lang = (r, st1)"
    by (cases "apply_translation e x st target_lang")
  have m1: "memory st \<subseteq>\<^sub>m memory st1"
    using apply_translation_mono [of st e x target_lang] a by simp
  show ?case
  proof (cases r)
    case (Inl exn)
    with a m1 show ?thesis by simp
  next
    case (Inr v)
    have "memory st1 \<subseteq>\<^sub>m memory (snd (resolve_all e target_lang rest st1))"
      by (rule Cons.IH)
    with m1 have "memory st \<subseteq>\<^sub>m memory (snd (resolve_all e target_lang rest st1))"
      by (rule map_le_trans)
    with a Inr show ?thesis
      by (auto split: prod.splits sum.splits)
  qed
qed

lemma resolve_all_runs:
  "chain_runs target_lang u (trace (snd (resolve_all e target_lang texts st)))
     \<le> chain_runs target_lang u (trace st) + (if u \<in> dom (memory st) then 0 else 1)"
proof (induction texts arbitrary: st)
  case Nil
  show ?case by simp
next
  case (Cons x rest)
  obtain r st1 where a: "apply_translation e x st target_lang = (r, st1)"
    by (cases "apply_translation e x st target_lang")
  have runs1: "chain_runs target_lang u (trace st1) =
     chain_runs target_lang u (trace st)
       + (if strip x = u \<and> u \<noteq> [] \<and> memory st u = None then 1 else 0)"
    using apply_translation_runs [of target_lang u e x st] a by simp
  have m1: "memory st \<subseteq>\<^sub>m memory st1"
    using apply_translation_mono [of st e x target_lang] a by simp
  show ?case
  proof (cases r)
    case (Inl exn)
    with a runs1 show ?thesis by (auto simp: domIff)
  next
    case (Inr v)
    have rest: "chain_runs target_lang u (trace (snd (resolve_all e target_lang rest st1)))
       \<le> chain_runs target_lang u (trace st1) + (if u \<in> dom (memory st1) then 0 else 1)"
      by (rule Cons.IH)
    have step: "snd (resolve_all e target_lang (x # rest) st) = snd (resolve_all e target_lang rest st1)"
      using a Inr by (simp split: prod.splits sum.splits)
    show ?thesis
    proof (cases "strip x = u \<and> u \<noteq> [] \<and> memory st u = None")
      case True
      with a Inr have "memory st1 u = Some v"
        using apply_translation_stored [of e x st target_lang v st1] by simp
      with rest runs1 True show ?thesis
        unfolding step by (auto simp: domIff)
    next
      case False
      have "u \<in> dom (memory st) \<Longrightarrow> u \<in> dom (memory st1)"
        using map_le_implies_dom_le [OF m1] by blast
      with rest runs1 False show ?thesis
        unfolding step by (auto simp: domIff split: if_splits)
    qed
  qed
qed

lemma resolve_all_results:
  "resolve_all e target_lang texts st = (Inr rs, st') \<Longrightarrow>
   length rs = length texts
   \<and> (\<forall>i < length texts. strip (texts ! i) \<noteq> [] \<longrightarrow> memory st' (strip (texts ! i)) = Some (rs ! i))"
proof (induction texts arbitrary: st rs)
  case Nil
  then show ?case by simp
next
  case (Cons x rest)
  from Cons.prems obtain r st1 rs1 where
    a: "apply_translation e x st target_lang = (Inr r, st1)" and
    b: "resolve_all e target_lang rest st1 = (Inr rs1, st')" and
    rs: "rs = r # rs1"
    by (auto split: prod.splits sum.splits)
  from Cons.IH [OF b] have len: "length rs1 = length rest"
    and ih: "\<And>i. i < length rest \<Longrightarrow> strip (rest ! i) \<noteq> [] \<Longrightarrow> memory st' (strip (rest ! i)) = Some (rs1 ! i)"
    by auto
  have mono: "memory st1 \<subseteq>\<^sub>m memory st'"
    using resolve_all_mono [of st1 e target_lang rest] b by simp
  have first: "strip x \<noteq> [] \<Longrightarrow> memory st' (strip x) = Some r"
  proof -
    assume "strip x \<noteq> []"
    with a have "memory st1 (strip x) = Some r"
      by (rule apply_translation_stored)
    with mono show ?thesis
      by (auto simp: map_le_def dom_def)
  qed
  show ?case
  proof (intro conjI allI impI)
    show "length rs = length (x # rest)"
      using rs len by simp
  next
    fix i
    assume i: "i < length (x # rest)" and ne: "strip ((x # rest) ! i) \<noteq> []"
    show "memory st' (strip ((x # rest) ! i)) = Some (rs ! i)"
    proof (cases i)
      case 0
      with ne first rs show ?thesis by simp
    next
      case (Suc j)
      with i ne ih [of j] rs show ?thesis by simp
    qed
  qed
qed

subsection \<open>Requests to the paid provider and to the refinement service\<close>

lemma libre_loop_other:
  "\<not> is_libre_post ev \<Longrightarrow>
   count_list (snd (libre_loop e servers text target_lang tr)) ev = count_list tr ev"
  by (rule libre_loop_count) auto

lemma libre_loop_filter:
  "(\<And>a b c. \<not> P (LibrePost a b c)) \<Longrightarrow>
   filter P (snd (libre_loop e servers text target_lang tr)) = filter P tr"
  by (induction servers arbitrary: tr)
     (auto simp: Let_def split: libre_reply.splits option.splits)

lemma translate_with_libre_filter:
  "(\<And>a b c. \<not> P (LibrePost a b c)) \<Longrightarrow>
   filter P (snd (translate_with_libre e text target_lang tr)) = filter P tr"
  unfolding translate_with_libre_def by (rule libre_loop_filter)

lemma translate_with_deepl_filter:
  "(\<And>a b. \<not> P (DeeplPost a b)) \<Longrightarrow>
   filter P (snd (translate_with_deepl e text code tr)) = filter P tr"
  by (auto simp: translate_with_deepl_def Let_def split: deepl_reply.splits option.splits)

lemma refine_with_gpt_filter:
  "(\<And>a. \<not> P (GptCreate a)) \<Longrightarrow>
   filter P (snd (refine_with_gpt e text translation target_lang tr)) = filter P tr"
  by (auto simp: refine_with_gpt_def Let_def split: gpt_reply.splits option.splits)

lemma translate_with_deepl_no_key:
  "\<not> truthy (DEEPL_API_KEY e) \<Longrightarrow> translate_with_deepl e text code tr = (text, tr)"
  by (simp add: translate_with_deepl_def)

lemma refine_with_gpt_unavailable:
  "\<not> has_openai e \<Longrightarrow> refine_with_gpt e text translation target_lang tr = (translation, tr)"
  by (simp add: refine_with_gpt_def)

lemma refine_with_gpt_fails:
  "gpt_fails e text translation target_lang tr \<Longrightarrow>
   fst (refine_with_gpt e text translation target_lang tr) = translation"
  by (auto simp: refine_with_gpt_def gpt_fails_def Let_def split: option.splits)

lemma deepl_only_after_libre_failed:
  assumes "fst (translate_with_libre e (strip text) target_lang (trace st)) \<noteq> strip text"
  shows "filter is_deepl_post (trace (snd (apply_translation e text st target_lang)))
           = filter is_deepl_post (trace st)"
  using assms
  by (auto simp: apply_translation_def candidate_translation_def Let_def case_prod_beta
      translate_with_libre_filter refine_with_gpt_filter split: option.splits sum.splits)

lemma gpt_only_after_candidate:
  assumes "filter is_gpt_create (trace (snd (apply_translation e text st target_lang)))
           \<noteq> filter is_gpt_create (trace st)"
  shows "\<exists>c. fst (candidate_translation e (strip text) target_lang (trace st)) = Inr c \<and> c \<noteq> strip text"
proof -
  have cand: "filter is_gpt_create (snd (candidate_translation e (strip text) target_lang (trace st)))
      = filter is_gpt_create (trace st)"
    by (simp add: candidate_translation_def Let_def case_prod_beta translate_with_libre_filter
        translate_with_deepl_filter split: option.splits)
  show ?thesis
    using assms cand
    by (auto simp: apply_translation_def Let_def case_prod_beta split: option.splits sum.splits if_splits)
qed

lemma failed_refinement_keeps_candidate:
  assumes "strip text \<noteq> []" and "memory st (strip text) = None"
    and "candidate_translation e (strip text) target_lang (trace st) = (Inr c, tr2)"
    and "c \<noteq> strip text"
    and "gpt_fails e (strip text) c target_lang tr2"
  shows "fst (apply_translation e text st target_lang) = Inr c
         \<and> memory (snd (apply_translation e text st target_lang)) = (memory st)(strip text \<mapsto> c)"
  using assms refine_with_gpt_fails [OF assms(5)]
  by (simp add: apply_translation_def Let_def case_prod_beta)

subsection \<open>The example environments, evaluated\<close>

lemmas resolver_defs =
  apply_translation_def candidate_translation_def translate_with_libre_def LIBRE_SERVERS_def
  translate_with_deepl_def refine_with_gpt_def has_openai_def truthy_def strip_def is_space_def
  LANG_MAP_def

lemma strip_Hello: "strip ''Hello'' = ''Hello''" "strip '' Hello '' = ''Hello''"
  by (simp_all add: strip_def is_space_def)

lemma fallback_Hello:
  "apply_translation fallback_env ''Hello'' empty_state ''es'' =
     (Inr ''ES:Hello'',
      \<lparr>memory = [''Hello'' \<mapsto> ''ES:Hello''],
       trace = [LibrePost ''https://translate.argosopentech.com'' ''Hello'' ''es'',
                DeeplPost ''Hello'' ''ES'']\<rparr>)"
  by (simp add: resolver_defs fallback_env_def empty_state_def Let_def)

lemma fallback_Hello_again:
  "apply_translation fallback_env '' Hello ''
     \<lparr>memory = [''Hello'' \<mapsto> ''ES:Hello''],
      trace = [LibrePost ''https://translate.argosopentech.com'' ''Hello'' ''es'',
               DeeplPost ''Hello'' ''ES'']\<rparr> ''es'' =
     (Inr ''ES:Hello'',
      \<lparr>memory = [''Hello'' \<mapsto> ''ES:Hello''],
       trace = [LibrePost ''https://translate.argosopentech.com'' ''Hello'' ''es'',
                DeeplPost ''Hello'' ''ES'']\<rparr>)"
  by (simp add: apply_translation_def strip_Hello Let_def)

lemma failing_gpt_Hello:
  "apply_translation failing_gpt_env ''Hello'' empty_state ''es'' =
     (Inr ''ES:Hello'',
      \<lparr>memory = [''Hello'' \<mapsto> ''ES:Hello''],
       trace = [LibrePost ''https://translate.argosopentech.com'' ''Hello'' ''es'',
                DeeplPost ''Hello'' ''ES'',
                GptCreate (gpt_prompt ''Spanish'' ''Hello'' ''ES:Hello'')]\<rparr>)"
  by (simp add: resolver_defs failing_gpt_env_def fallback_env_def empty_state_def Let_def)

lemma failing_gpt_candidate:
  "candidate_translation failing_gpt_env ''Hello'' ''es'' [] =
     (Inr ''ES:Hello'',
      [LibrePost ''https://translate.argosopentech.com'' ''Hello'' ''es'', DeeplPost ''Hello'' ''ES''])"
  by (simp add: resolver_defs failing_gpt_env_def fallback_env_def Let_def)

lemma bonjour_Hello:
  "apply_translation bonjour_env ''Hello'' empty_state ''fr'' =
     (Inr ''Bonjour'',
      \<lparr>memory = [''Hello'' \<mapsto> ''Bonjour''],
       trace = [LibrePost ''https://translate.argosopentech.com'' ''Hello'' ''fr'']\<rparr>)"
  by (simp add: resolver_defs bonjour_env_def empty_state_def Let_def)

lemma bonjour_libre:
  "translate_with_libre bonjour_env ''Hello'' ''fr'' [] =
     (''Bonjour'', [LibrePost ''https://translate.argosopentech.com'' ''Hello'' ''fr''])"
  by (simp add: resolver_defs bonjour_env_def Let_def)

lemma fallback_Bye:
  "apply_translation fallback_env ''Bye'' hola_state ''es'' =
     (Inr ''ES:Bye'',
      \<lparr>memory = [''Hello'' \<mapsto> ''Hola'', ''Bye'' \<mapsto> ''ES:Bye''],
       trace = [LibrePost ''https://translate.argosopentech.com'' ''Bye'' ''es'',
                DeeplPost ''Bye'' ''ES'']\<rparr>)"
  by (simp add: resolver_defs fallback_env_def hola_state_def Let_def)

lemma fallback_sequence:
  "resolve_all fallback_env ''es'' [''Hello'', '' Hello ''] empty_state =
     (Inr [''ES:Hello'', ''ES:Hello''],
      \<lparr>memory = [''Hello'' \<mapsto> ''ES:Hello''],
       trace = [LibrePost ''https://translate.argosopentech.com'' ''Hello'' ''es'',
                DeeplPost ''Hello'' ''ES'']\<rparr>)"
  by (simp add: fallback_Hello fallback_Hello_again)

lemma resolve_all_blank:
  "resolve_all e target_lang texts st = (Inr rs, st') \<Longrightarrow> i < length texts \<Longrightarrow>
   strip (texts ! i) = [] \<Longrightarrow> rs ! i = []"
proof (induction texts arbitrary: st rs i)
  case Nil
  then show ?case by simp
next
  case (Cons x rest)
  from Cons.prems(1) obtain r st1 rs1 where
    a: "apply_translation e x st target_lang = (Inr r, st1)" and
    b: "resolve_all e target_lang rest st1 = (Inr rs1, st')" and
    rs: "rs = r # rs1"
    by (auto split: prod.splits sum.splits)
  show ?case
  proof (cases i)
    case 0
    with Cons.prems(3) a rs show ?thesis
      by (simp add: apply_translation_def)
  next
    case (Suc j)
    with Cons.prems(2,3) Cons.IH [OF b, of j] rs show ?thesis
      by simp
  qed
qed

section \<open>The claims about the resolver\<close>

text \<open>
  Claim C2. A call whose trimmed text is not empty and is a key of the memory returns the
  stored value and leaves the state as it was: no request is sent. Over any sequence of
  calls on the same memory, the provider chain runs at most once for a string, and not at
  all for a string that was a key before the sequence; every call returns the value the
  memory holds for its trimmed text afterwards, so two calls for the same string return
  the same value.
\<close>

theorem memory_hit_and_single_chain_run:
  "(strip str \<noteq> [] \<and> memory st (strip str) = Some v \<longrightarrow>
      apply_translation e str st target_lang = (Inr v, st))
   \<and> chain_runs target_lang u (trace (snd (resolve_all e target_lang texts st)))
       \<le> chain_runs target_lang u (trace st) + (if u \<in> dom (memory st) then 0 else 1)
   \<and> (resolve_all e target_lang texts st = (Inr rs, st') \<longrightarrow>
        length rs = length texts
        \<and> (\<forall>i < length texts. strip (texts ! i) \<noteq> [] \<longrightarrow>
              memory st' (strip (texts ! i)) = Some (rs ! i))
        \<and> (\<forall>i j. i < j \<and> j < length texts \<and> strip (texts ! i) = strip (texts ! j) \<longrightarrow>
              rs ! j = rs ! i))"
proof (intro conjI impI)
  assume "strip str \<noteq> [] \<and> memory st (strip str) = Some v"
  then show "apply_translation e str st target_lang = (Inr v, st)"
    by (simp add: apply_translation_hit)
next
  show "chain_runs target_lang u (trace (snd (resolve_all e target_lang texts st)))
       \<le> chain_runs target_lang u (trace st) + (if u \<in> dom (memory st) then 0 else 1)"
    by (rule resolve_all_runs)
next
  assume r: "resolve_all e target_lang texts st = (Inr rs, st')"
  from resolve_all_results [OF r] show "length rs = length texts"
    by blast
  from resolve_all_results [OF r]
  show stored: "\<forall>i < length texts. strip (texts ! i) \<noteq> [] \<longrightarrow>
      memory st' (strip (texts ! i)) = Some (rs ! i)"
    by blast
  show "\<forall>i j. i < j \<and> j < length texts \<and> strip (texts ! i) = strip (texts ! j) \<longrightarrow>
      rs ! j = rs ! i"
  proof (intro allI impI)
    fix i j
    assume h: "i < j \<and> j < length texts \<and> strip (texts ! i) = strip (texts ! j)"
    then have i: "i < length texts" and j: "j < length texts"
      and same: "strip (texts ! i) = strip (texts ! j)"
      by auto
    show "rs ! j = rs ! i"
    proof (cases "strip (texts ! i) = []")
      case True
      with same resolve_all_blank [OF r i] resolve_all_blank [OF r j] show ?thesis
        by simp
    next
      case False
      with same stored i j have "Some (rs ! j) = Some (rs ! i)"
        by metis
      then show ?thesis by simp
    qed
  qed
qed

theorem memory_hit_and_single_chain_run_witness:
  "strip ''Hello'' \<noteq> [] \<and> memory hola_state (strip ''Hello'') = Some ''Hola''
   \<and> apply_translation fallback_env ''Hello'' hola_state ''es'' = (Inr ''Hola'', hola_state)
   \<and> chain_runs ''es'' ''Hello''
        (trace (snd (resolve_all fallback_env ''es'' [''Hello'', '' Hello ''] empty_state))) \<le> 1
   \<and> fst (resolve_all fallback_env ''es'' [''Hello'', '' Hello ''] empty_state)
        = Inr [''ES:Hello'', ''ES:Hello'']
   \<and> memory (snd (resolve_all fallback_env ''es'' [''Hello'', '' Hello ''] empty_state)) ''Hello''
        = Some ''ES:Hello''"
proof -
  have h: "strip ''Hello'' \<noteq> [] \<and> memory hola_state (strip ''Hello'') = Some ''Hola''"
    by (simp add: strip_Hello hola_state_def)
  have hit: "apply_translation fallback_env ''Hello'' hola_state ''es'' = (Inr ''Hola'', hola_state)"
    using memory_hit_and_single_chain_run
      [where str = "''Hello''" and st = hola_state and v = "''Hola''" and e = fallback_env
        and target_lang = "''es''"] h
    by blast
  have runs: "chain_runs ''es'' ''Hello''
        (trace (snd (resolve_all fallback_env ''es'' [''Hello'', '' Hello ''] empty_state))) \<le> 1"
    using memory_hit_and_single_chain_run
      [where u = "''Hello''" and st = empty_state and e = fallback_env and target_lang = "''es''"
        and texts = "[''Hello'', '' Hello '']"]
    unfolding fallback_sequence by (simp add: empty_state_def chain_runs_def)
  from h hit runs show ?thesis
    unfolding fallback_sequence by simp
qed

text \<open>
  Claim C10. A call changes the memory only by adding: every entry present before the
  call is present afterwards with the same value, the only key that can be new is the
  trimmed text, and when the set of keys has changed the trimmed text is not empty and
  was not a key before.
\<close>

theorem memory_only_grows:
  "(\<forall>k v. memory st k = Some v \<longrightarrow>
       memory (snd (apply_translation e str st target_lang)) k = Some v)
   \<and> dom (memory (snd (apply_translation e str st target_lang)))
       \<subseteq> insert (strip str) (dom (memory st))
   \<and> (dom (memory (snd (apply_translation e str st target_lang))) \<noteq> dom (memory st) \<longrightarrow>
        strip str \<noteq> [] \<and> strip str \<notin> dom (memory st))"
  using apply_translation_memory [of e str st target_lang]
  by (auto split: if_splits)

theorem memory_only_grows_witness:
  "memory hola_state ''Hello'' = Some ''Hola''
   \<and> memory (snd (apply_translation fallback_env ''Bye'' hola_state ''es'')) ''Hello'' = Some ''Hola''
   \<and> dom (memory (snd (apply_translation fallback_env ''Bye'' hola_state ''es'')))
        \<noteq> dom (memory hola_state)
   \<and> strip ''Bye'' \<noteq> [] \<and> strip ''Bye'' \<notin> dom (memory hola_state)"
proof -
  have h: "memory hola_state ''Hello'' = Some ''Hola''"
    by (simp add: hola_state_def)
  have d: "dom (memory (snd (apply_translation fallback_env ''Bye'' hola_state ''es'')))
        \<noteq> dom (memory hola_state)"
    unfolding fallback_Bye by (auto simp: hola_state_def)
  from memory_only_grows [where st = hola_state and e = fallback_env and str = "''Bye''"
      and target_lang = "''es''"] h d
  show ?thesis
    by blast
qed

text \<open>
  Claim C3, as stated, at the example of the specification: with a bulk provider that
  returns its input and a paid provider that returns the language code it is given, a
  colon and the text, resolving \<open>Hello\<close> for \<open>es\<close> does not give \<open>es:Hello\<close>.
\<close>

theorem paid_provider_example_counterexample:
  "\<not> (fst (apply_translation fallback_env ''Hello'' empty_state ''es'') = Inr ''es:Hello''
      \<and> memory (snd (apply_translation fallback_env ''Hello'' empty_state ''es'')) ''Hello''
           = Some ''es:Hello'')"
  by (simp add: fallback_Hello)

text \<open>
  Claim C3, amended. A call whose bulk provider returned something else than the trimmed
  text sends no request to the paid provider; without the paid credential
  \<open>translate_with_deepl\<close> returns its input and sends nothing. The paid provider is
  called with the code \<open>LANG_MAP\<close> gives for the target language, \<open>ES\<close> for \<open>es\<close>: with a
  bulk provider that always returns its input, a paid provider that returns the code it
  is given, a colon and the text, and no refinement service, resolving \<open>Hello\<close> for
  \<open>es\<close> on a memory without that key yields \<open>ES:Hello\<close>, and the memory afterwards is
  the memory before with \<open>Hello\<close> mapped to \<open>ES:Hello\<close>.
\<close>

theorem paid_provider_fallback:
  "(fst (translate_with_libre e (strip str) target_lang (trace st)) \<noteq> strip str \<longrightarrow>
      filter is_deepl_post (trace (snd (apply_translation e str st target_lang)))
        = filter is_deepl_post (trace st))
   \<and> (\<not> truthy (DEEPL_API_KEY e) \<longrightarrow> translate_with_deepl e str code tr = (str, tr))
   \<and> ((\<forall>x l tr. fst (translate_with_libre e x l tr) = x)
        \<and> truthy (DEEPL_API_KEY e)
        \<and> (\<forall>tr x c. deepl_server e tr x c = DeeplResponse 200 (Some (c @ '':'' @ x)))
        \<and> \<not> has_openai e
        \<and> memory st0 ''Hello'' = None \<longrightarrow>
        fst (apply_translation e ''Hello'' st0 ''es'') = Inr ''ES:Hello''
        \<and> memory (snd (apply_translation e ''Hello'' st0 ''es''))
             = (memory st0)(''Hello'' \<mapsto> ''ES:Hello''))"
proof (intro conjI impI)
  assume "fst (translate_with_libre e (strip str) target_lang (trace st)) \<noteq> strip str"
  then show "filter is_deepl_post (trace (snd (apply_translation e str st target_lang)))
        = filter is_deepl_post (trace st)"
    by (rule deepl_only_after_libre_failed)
next
  assume "\<not> truthy (DEEPL_API_KEY e)"
  then show "translate_with_deepl e str code tr = (str, tr)"
    by (rule translate_with_deepl_no_key)
next
  assume h: "(\<forall>x l tr. fst (translate_with_libre e x l tr) = x)
        \<and> truthy (DEEPL_API_KEY e)
        \<and> (\<forall>tr x c. deepl_server e tr x c = DeeplResponse 200 (Some (c @ '':'' @ x)))
        \<and> \<not> has_openai e
        \<and> memory st0 ''Hello'' = None"
  have lm: "LANG_MAP ''es'' = Some \<lparr>lang_name = ''Spanish'', lang_deepl = ''ES''\<rparr>"
    by (simp add: LANG_MAP_def)
  from h have "fst (translate_with_libre e ''Hello'' ''es'' (trace st0)) = ''Hello''"
    by blast
  then obtain tr1 where l: "translate_with_libre e ''Hello'' ''es'' (trace st0) = (''Hello'', tr1)"
    by (cases "translate_with_libre e ''Hello'' ''es'' (trace st0)") simp
  from h have d: "translate_with_deepl e ''Hello'' ''ES'' tr1
      = (''ES:Hello'', tr1 @ [DeeplPost ''Hello'' ''ES''])"
    by (simp add: translate_with_deepl_def)
  from h have c: "candidate_translation e ''Hello'' ''es'' (trace st0)
      = (Inr ''ES:Hello'', tr1 @ [DeeplPost ''Hello'' ''ES''])"
    by (simp add: candidate_translation_def l lm d)
  from h have g: "refine_with_gpt e ''Hello'' ''ES:Hello'' ''es'' tr' = (''ES:Hello'', tr')" for tr'
    by (simp add: refine_with_gpt_unavailable)
  from h have m: "memory st0 ''Hello'' = None"
    by blast
  have a: "apply_translation e ''Hello'' st0 ''es'' =
      (Inr ''ES:Hello'',
       \<lparr>memory = (memory st0)(''Hello'' \<mapsto> ''ES:Hello''), trace = tr1 @ [DeeplPost ''Hello'' ''ES'']\<rparr>)"
    by (simp add: apply_translation_def strip_Hello m c g Let_def)
  show "fst (apply_translation e ''Hello'' st0 ''es'') = Inr ''ES:Hello''"
    by (simp add: a)
  show "memory (snd (apply_translation e ''Hello'' st0 ''es''))
             = (memory st0)(''Hello'' \<mapsto> ''ES:Hello'')"
    by (simp add: a)
qed

lemma fallback_env_providers:
  "(\<forall>x l tr. fst (translate_with_libre fallback_env x l tr) = x)
   \<and> truthy (DEEPL_API_KEY fallback_env)
   \<and> (\<forall>tr x c. deepl_server fallback_env tr x c = DeeplResponse 200 (Some (c @ '':'' @ x)))
   \<and> \<not> has_openai fallback_env
   \<and> memory empty_state ''Hello'' = None"
  by (simp add: translate_with_libre_def LIBRE_SERVERS_def fallback_env_def truthy_def
      has_openai_def empty_state_def Let_def)

theorem paid_provider_fallback_witness:
  "fst (translate_with_libre bonjour_env (strip ''Hello'') ''fr'' (trace empty_state)) \<noteq> strip ''Hello''
   \<and> filter is_deepl_post (trace (snd (apply_translation bonjour_env ''Hello'' empty_state ''fr'')))
        = filter is_deepl_post (trace empty_state)
   \<and> \<not> truthy (DEEPL_API_KEY bonjour_env)
   \<and> translate_with_deepl bonjour_env ''Hello'' ''FR'' [] = (''Hello'', [])
   \<and> (\<forall>x l tr. fst (translate_with_libre fallback_env x l tr) = x)
   \<and> truthy (DEEPL_API_KEY fallback_env)
   \<and> (\<forall>tr x c. deepl_server fallback_env tr x c = DeeplResponse 200 (Some (c @ '':'' @ x)))
   \<and> \<not> has_openai fallback_env
   \<and> memory empty_state ''Hello'' = None
   \<and> fst (apply_translation fallback_env ''Hello'' empty_state ''es'') = Inr ''ES:Hello''
   \<and> memory (snd (apply_translation fallback_env ''Hello'' empty_state ''es''))
        = (memory empty_state)(''Hello'' \<mapsto> ''ES:Hello'')"
proof -
  have h1: "fst (translate_with_libre bonjour_env (strip ''Hello'') ''fr'' (trace empty_state))
      \<noteq> strip ''Hello''"
    by (simp add: strip_Hello empty_state_def bonjour_libre)
  have h2: "\<not> truthy (DEEPL_API_KEY bonjour_env)"
    by (simp add: bonjour_env_def truthy_def)
  note t1 = paid_provider_fallback [where e = bonjour_env and str = "''Hello''"
      and target_lang = "''fr''" and st = empty_state and code = "''FR''" and tr = "[]"]
  note t2 = paid_provider_fallback [where e = fallback_env and ?st0.0 = empty_state]
  from t1 h1 have c1: "filter is_deepl_post (trace (snd (apply_translation bonjour_env ''Hello'' empty_state ''fr'')))
        = filter is_deepl_post (trace empty_state)"
    by blast
  from t1 h2 have c2: "translate_with_deepl bonjour_env ''Hello'' ''FR'' [] = (''Hello'', [])"
    by blast
  from t2 fallback_env_providers
  have c3: "fst (apply_translation fallback_env ''Hello'' empty_state ''es'') = Inr ''ES:Hello''
        \<and> memory (snd (apply_translation fallback_env ''Hello'' empty_state ''es''))
             = (memory empty_state)(''Hello'' \<mapsto> ''ES:Hello'')"
    by blast
  from h1 h2 c1 c2 c3 fallback_env_providers show ?thesis
    by blast
qed

text \<open>
  Claim C4. A call that sends a request to the refinement service had a candidate from
  the earlier stages that differs from the trimmed text; without the refinement
  credential \<open>refine_with_gpt\<close> returns the candidate and sends nothing; and when the
  refinement step fails, the call returns the candidate, which is not the trimmed text,
  and records it in the memory.
\<close>

theorem refinement_falls_back_to_candidate:
  "(filter is_gpt_create (trace (snd (apply_translation e str st target_lang)))
        \<noteq> filter is_gpt_create (trace st) \<longrightarrow>
      (\<exists>c. fst (candidate_translation e (strip str) target_lang (trace st)) = Inr c \<and> c \<noteq> strip str))
   \<and> (\<not> truthy (OPENAI_API_KEY e) \<longrightarrow>
        refine_with_gpt e source translation target_lang tr = (translation, tr))
   \<and> (strip str \<noteq> [] \<and> memory st (strip str) = None
        \<and> candidate_translation e (strip str) target_lang (trace st) = (Inr cand, tr2)
        \<and> cand \<noteq> strip str
        \<and> gpt_fails e (strip str) cand target_lang tr2 \<longrightarrow>
        fst (apply_translation e str st target_lang) = Inr cand
        \<and> fst (apply_translation e str st target_lang) \<noteq> Inr (strip str)
        \<and> memory (snd (apply_translation e str st target_lang)) = (memory st)(strip str \<mapsto> cand))"
proof (intro conjI impI)
  assume "filter is_gpt_create (trace (snd (apply_translation e str st target_lang)))
        \<noteq> filter is_gpt_create (trace st)"
  then show "\<exists>c. fst (candidate_translation e (strip str) target_lang (trace st)) = Inr c \<and> c \<noteq> strip str"
    by (rule gpt_only_after_candidate)
next
  assume "\<not> truthy (OPENAI_API_KEY e)"
  then have "\<not> has_openai e"
    by (simp add: has_openai_def)
  then show "refine_with_gpt e source translation target_lang tr = (translation, tr)"
    by (rule refine_with_gpt_unavailable)
next
  assume h: "strip str \<noteq> [] \<and> memory st (strip str) = None
        \<and> candidate_translation e (strip str) target_lang (trace st) = (Inr cand, tr2)
        \<and> cand \<noteq> strip str
        \<and> gpt_fails e (strip str) cand target_lang tr2"
  then have r: "fst (apply_translation e str st target_lang) = Inr cand
         \<and> memory (snd (apply_translation e str st target_lang)) = (memory st)(strip str \<mapsto> cand)"
    using failed_refinement_keeps_candidate [of str st e target_lang cand tr2] by blast
  from r show "fst (apply_translation e str st target_lang) = Inr cand"
    by blast
  from r h show "fst (apply_translation e str st target_lang) \<noteq> Inr (strip str)"
    by simp
  from r show "memory (snd (apply_translation e str st target_lang)) = (memory st)(strip str \<mapsto> cand)"
    by blast
qed

theorem refinement_falls_back_to_candidate_witness:
  "filter is_gpt_create (trace (snd (apply_translation failing_gpt_env ''Hello'' empty_state ''es'')))
        \<noteq> filter is_gpt_create (trace empty_state)
   \<and> fst (candidate_translation failing_gpt_env (strip ''Hello'') ''es'' (trace empty_state))
        = Inr ''ES:Hello''
   \<and> \<not> truthy (OPENAI_API_KEY fallback_env)
   \<and> refine_with_gpt fallback_env ''Hello'' ''Hola'' ''es'' [] = (''Hola'', [])
   \<and> strip ''Hello'' \<noteq> [] \<and> memory empty_state (strip ''Hello'') = None
   \<and> ''ES:Hello'' \<noteq> strip ''Hello''
   \<and> gpt_fails failing_gpt_env (strip ''Hello'') ''ES:Hello'' ''es''
        [LibrePost ''https://translate.argosopentech.com'' ''Hello'' ''es'', DeeplPost ''Hello'' ''ES'']
   \<and> fst (apply_translation failing_gpt_env ''Hello'' empty_state ''es'') = Inr ''ES:Hello''
   \<and> memory (snd (apply_translation failing_gpt_env ''Hello'' empty_state ''es''))
        = (memory empty_state)(strip ''Hello'' \<mapsto> ''ES:Hello'')"
proof -
  let ?tr2 = "[LibrePost ''https://translate.argosopentech.com'' ''Hello'' ''es'', DeeplPost ''Hello'' ''ES'']"
  have h1: "filter is_gpt_create (trace (snd (apply_translation failing_gpt_env ''Hello'' empty_state ''es'')))
        \<noteq> filter is_gpt_create (trace empty_state)"
    unfolding failing_gpt_Hello by (simp add: empty_state_def)
  have h2: "\<not> truthy (OPENAI_API_KEY fallback_env)"
    by (simp add: fallback_env_def truthy_def)
  have h3: "strip ''Hello'' \<noteq> [] \<and> memory empty_state (strip ''Hello'') = None
      \<and> candidate_translation failing_gpt_env (strip ''Hello'') ''es'' (trace empty_state)
          = (Inr ''ES:Hello'', ?tr2)
      \<and> ''ES:Hello'' \<noteq> strip ''Hello''
      \<and> gpt_fails failing_gpt_env (strip ''Hello'') ''ES:Hello'' ''es'' ?tr2"
  proof -
    have cnd: "candidate_translation failing_gpt_env (strip ''Hello'') ''es'' (trace empty_state)
        = (Inr ''ES:Hello'', ?tr2)"
      by (simp add: strip_Hello empty_state_def failing_gpt_candidate)
    have gf: "gpt_fails failing_gpt_env (strip ''Hello'') ''ES:Hello'' ''es'' ?tr2"
      by (simp add: gpt_fails_def has_openai_def truthy_def failing_gpt_env_def fallback_env_def
          LANG_MAP_def)
    have "strip ''Hello'' \<noteq> [] \<and> memory empty_state (strip ''Hello'') = None
        \<and> ''ES:Hello'' \<noteq> strip ''Hello''"
      by (simp add: strip_Hello empty_state_def)
    with cnd gf show ?thesis
      by blast
  qed
  note t1 = refinement_falls_back_to_candidate [where e = failing_gpt_env and str = "''Hello''"
      and st = empty_state and target_lang = "''es''" and cand = "''ES:Hello''" and ?tr2.0 = ?tr2]
  note t2 = refinement_falls_back_to_candidate [where e = fallback_env and source = "''Hello''"
      and translation = "''Hola''" and target_lang = "''es''" and tr = "[]"]
  from t2 h2 have c2: "refine_with_gpt fallback_env ''Hello'' ''Hola'' ''es'' [] = (''Hola'', [])"
    by blast
  from t1 h3 have c3: "fst (apply_translation failing_gpt_env ''Hello'' empty_state ''es'') = Inr ''ES:Hello''
      \<and> memory (snd (apply_translation failing_gpt_env ''Hello'' empty_state ''es''))
        = (memory empty_state)(strip ''Hello'' \<mapsto> ''ES:Hello'')"
    by blast
  from h3 have c1: "fst (candidate_translation failing_gpt_env (strip ''Hello'') ''es'' (trace empty_state))
        = Inr ''ES:Hello''"
    by simp
  from h1 h2 h3 c1 c2 c3 show ?thesis
    by blast
qed

section \<open>The memory store and the output path\<close>

lemma load_memory_missing: "load_memory NoFile = (Inr Map.empty, [LoadMemory])"
  by (simp add: load_memory_def path_exists_def)

lemma load_memory_not_json:
  "load_memory NotJson =
     (Inr Map.empty, [LoadMemory, LogError ''Error parsing translation_db.json. Creating new memory.''])"
  by (simp add: load_memory_def path_exists_def open_and_json_load_def)


lemma load_memory_cannot_open: "load_memory CannotOpen = (Inl OSError, [LoadMemory])"
  by (simp add: load_memory_def path_exists_def open_and_json_load_def)

lemma supported_fr: "LANG_MAP ''fr'' \<noteq> None"
  by (simp add: LANG_MAP_def)

text \<open>
  Claim C5, at a memory file whose bytes are not UTF-8 (a file cut in the middle of a
  character, or the single byte 255): \<open>load_memory\<close> raises \<open>UnicodeDecodeError\<close>, and
  the exception leaves \<open>translate_html_file\<close> and ends the run at the first file.
\<close>

theorem load_memory_raises_on_undecodable_file:
  "load_memory NotUtf8 = (Inl UnicodeDecodeError, [LoadMemory])
   \<and> fst (translate_html_file lib e file ''fr'' force (w\<lparr>store := NotUtf8\<rparr>)) = Inl UnicodeDecodeError
   \<and> fst (main lib e ''fr'' force (file # rest) (w\<lparr>store := NotUtf8\<rparr>)) = Raised UnicodeDecodeError"
proof -
  have l: "load_memory NotUtf8 = (Inl UnicodeDecodeError, [LoadMemory])"
    by (simp add: load_memory_def path_exists_def open_and_json_load_def)
  have t: "fst (translate_html_file lib e file ''fr'' force (w\<lparr>store := NotUtf8\<rparr>)) = Inl UnicodeDecodeError"
    by (simp add: translate_html_file_def l)
  have "fst (main lib e ''fr'' force (file # rest) (w\<lparr>store := NotUtf8\<rparr>)) = Raised UnicodeDecodeError"
    using t supported_fr
    by (cases "translate_html_file lib e file ''fr'' force (w\<lparr>store := NotUtf8\<rparr>)")
       (simp add: main_def)
  with l t show ?thesis
    by blast
qed

text \<open>
  Claim C7, at a path with \<open>.html\<close> before its suffix: every occurrence is replaced, not
  only the trailing one.
\<close>

theorem output_path_replaces_every_occurrence:
  "output_path ''./my.html.guide.html'' ''fr'' = ''./my-fr.html.guide-fr.html''
   \<and> output_path ''site.html/index.html'' ''fr'' = ''site-fr.html/index-fr.html''"
  by (simp add: output_path_def replace_def startswith_def)

section \<open>Link localisation\<close>

lemma re_sub_html_end_stem: "re_sub_html_end repl (stem @ ''.html'') = stem @ repl"
  by (simp add: re_sub_html_end_def endswith_def)

lemma rewrite_href_name: "tag_name (rewrite_href target_lang t) = tag_name t"
  by (simp add: rewrite_href_def split: option.splits)

lemma rewrite_href_stem:
  "tag_name t = ''a'' \<Longrightarrow> attrs t ''href'' = Some (stem @ ''.html'') \<Longrightarrow>
   \<not> endswith (stem @ ''.html'') (''-'' @ target_lang @ ''.html'') \<Longrightarrow>
   attrs (rewrite_href target_lang t) ''href'' = Some (stem @ ''-'' @ target_lang @ ''.html'')"
  by (simp add: rewrite_href_def re_sub_html_end_stem) (simp add: endswith_def)

lemma rewrite_href_localised:
  "attrs t ''href'' = Some href \<Longrightarrow> endswith href (''-'' @ target_lang @ ''.html'') \<Longrightarrow>
   rewrite_href target_lang t = t"
  by (simp add: rewrite_href_def)

lemma rewrite_href_other:
  "attrs t ''href'' = Some href \<Longrightarrow> \<not> endswith href ''.html'' \<Longrightarrow>
   rewrite_href target_lang t = t"
  by (simp add: rewrite_href_def)

lemma rewrite_href_attrs:
  "k \<noteq> ''href'' \<Longrightarrow> attrs (rewrite_href target_lang t) k = attrs t k"
  by (simp add: rewrite_href_def split: option.splits)

lemma process_tag_a:
  "tag_name t = ''a'' \<Longrightarrow> process_tag e target_lang t st = (Inr (rewrite_href target_lang t), st)"
  by (simp add: process_tag_def rewrite_href_name Let_def)

lemma process_tags_links:
  "process_tags e target_lang ts st = (Inr ts', st') \<Longrightarrow>
   length ts' = length ts
   \<and> (\<forall>i < length ts. tag_name (ts ! i) = ''a'' \<longrightarrow> ts' ! i = rewrite_href target_lang (ts ! i))"
proof (induction ts arbitrary: st ts')
  case Nil
  then show ?case by simp
next
  case (Cons t rest)
  from Cons.prems obtain t' st1 rest' where
    a: "process_tag e target_lang t st = (Inr t', st1)" and
    b: "process_tags e target_lang rest st1 = (Inr rest', st')" and
    ts': "ts' = t' # rest'"
    by (auto split: prod.splits sum.splits)
  from Cons.IH [OF b] have len: "length rest' = length rest"
    and ih: "\<And>i. i < length rest \<Longrightarrow> tag_name (rest ! i) = ''a'' \<Longrightarrow>
               rest' ! i = rewrite_href target_lang (rest ! i)"
    by auto
  have first: "tag_name t = ''a'' \<Longrightarrow> t' = rewrite_href target_lang t"
    using a by (simp add: process_tag_a)
  show ?case
  proof (intro conjI allI impI)
    show "length ts' = length (t # rest)"
      using ts' len by simp
  next
    fix i
    assume i: "i < length (t # rest)" and a: "tag_name ((t # rest) ! i) = ''a''"
    show "ts' ! i = rewrite_href target_lang ((t # rest) ! i)"
    proof (cases i)
      case 0
      with a first ts' show ?thesis by simp
    next
      case (Suc j)
      with i a ih [of j] ts' show ?thesis by simp
    qed
  qed
qed

lemma example_links:
  "process_tags e ''fr'' [about_link, about_fr_link, example_link] st =
     (Inr [rewrite_href ''fr'' about_link, rewrite_href ''fr'' about_fr_link,
           rewrite_href ''fr'' example_link], st)"
  by (simp add: process_tag_a about_link_def about_fr_link_def example_link_def)

text \<open>
  Claim C8. For a supported target language and a hyperlink element: a \<open>href\<close> that ends
  in \<open>.html\<close> and not in \<open>-<target_lang>.html\<close> has its trailing \<open>.html\<close> replaced by
  \<open>-<target_lang>.html\<close>; an element whose \<open>href\<close> already ends in
  \<open>-<target_lang>.html\<close>, or does not end in \<open>.html\<close>, is left as it is; no other
  attribute changes; and the loop over the elements of a document does this to every
  hyperlink element.
\<close>

theorem links_are_localised:
  assumes "target_lang \<in> dom LANG_MAP"
  shows "(tag_name t = ''a'' \<and> attrs t ''href'' = Some (stem @ ''.html'')
            \<and> \<not> endswith (stem @ ''.html'') (''-'' @ target_lang @ ''.html'') \<longrightarrow>
          attrs (rewrite_href target_lang t) ''href'' = Some (stem @ ''-'' @ target_lang @ ''.html''))
       \<and> (attrs t ''href'' = Some href \<and> endswith href (''-'' @ target_lang @ ''.html'') \<longrightarrow>
            rewrite_href target_lang t = t)
       \<and> (attrs t ''href'' = Some href \<and> \<not> endswith href ''.html'' \<longrightarrow>
            rewrite_href target_lang t = t)
       \<and> (k \<noteq> ''href'' \<longrightarrow> attrs (rewrite_href target_lang t) k = attrs t k)
       \<and> (process_tags e target_lang ts st = (Inr ts', st') \<longrightarrow>
            length ts' = length ts
            \<and> (\<forall>i < length ts. tag_name (ts ! i) = ''a'' \<longrightarrow>
                  ts' ! i = rewrite_href target_lang (ts ! i)))"
  using rewrite_href_stem [of t stem target_lang] rewrite_href_localised [of t href target_lang]
    rewrite_href_other [of t href target_lang] rewrite_href_attrs [of k target_lang t]
    process_tags_links [of e target_lang ts st ts' st']
  by blast

theorem links_are_localised_witness:
  "''fr'' \<in> dom LANG_MAP
   \<and> tag_name about_link = ''a'' \<and> attrs about_link ''href'' = Some (''about'' @ ''.html'')
   \<and> \<not> endswith (''about'' @ ''.html'') (''-'' @ ''fr'' @ ''.html'')
   \<and> attrs (rewrite_href ''fr'' about_link) ''href'' = Some ''about-fr.html''
   \<and> attrs about_fr_link ''href'' = Some ''about-fr.html''
   \<and> endswith ''about-fr.html'' (''-'' @ ''fr'' @ ''.html'')
   \<and> rewrite_href ''fr'' about_fr_link = about_fr_link
   \<and> attrs example_link ''href'' = Some ''https://example.com''
   \<and> \<not> endswith ''https://example.com'' ''.html''
   \<and> rewrite_href ''fr'' example_link = example_link
   \<and> fst (process_tags bonjour_env ''fr'' [about_link, about_fr_link, example_link] empty_state)
        = Inr [rewrite_href ''fr'' about_link, about_fr_link, example_link]"
proof -
  have l: "''fr'' \<in> dom LANG_MAP"
    by (simp add: LANG_MAP_def)
  have h1: "tag_name about_link = ''a'' \<and> attrs about_link ''href'' = Some (''about'' @ ''.html'')
      \<and> \<not> endswith (''about'' @ ''.html'') (''-'' @ ''fr'' @ ''.html'')"
    by (simp add: about_link_def endswith_def)
  have h2: "attrs about_fr_link ''href'' = Some ''about-fr.html''
      \<and> endswith ''about-fr.html'' (''-'' @ ''fr'' @ ''.html'')"
    by (simp add: about_fr_link_def endswith_def)
  have h3: "attrs example_link ''href'' = Some ''https://example.com''
      \<and> \<not> endswith ''https://example.com'' ''.html''"
    by (simp add: example_link_def endswith_def)
  note t1 = links_are_localised [OF l, where t = about_link and stem = "''about''"]
  note t2 = links_are_localised [OF l, where t = about_fr_link and href = "''about-fr.html''"]
  note t3 = links_are_localised [OF l, where t = example_link and href = "''https://example.com''"]
  from t1 h1 have c1: "attrs (rewrite_href ''fr'' about_link) ''href'' = Some ''about-fr.html''"
    by simp
  from t2 h2 have c2: "rewrite_href ''fr'' about_fr_link = about_fr_link"
    by blast
  from t3 h3 have c3: "rewrite_href ''fr'' example_link = example_link"
    by blast
  have c4: "fst (process_tags bonjour_env ''fr'' [about_link, about_fr_link, example_link] empty_state)
        = Inr [rewrite_href ''fr'' about_link, about_fr_link, example_link]"
    unfolding example_links using c2 c3 by simp
  from l h1 h2 h3 c1 c2 c3 c4 show ?thesis
    by blast
qed

section \<open>The trace of a file and of a batch\<close>

lemma sends_refl: "sends tr tr"
  by (simp add: sends_def)

lemma sends_trans: "sends tr tr1 \<Longrightarrow> sends tr1 tr2 \<Longrightarrow> sends tr tr2"
  by (auto simp: sends_def)

lemma sends_snoc: "is_request ev \<Longrightarrow> sends tr (tr @ [ev])"
  by (simp add: sends_def)

lemma libre_loop_sends: "sends tr (snd (libre_loop e servers x target_lang tr))"
proof (induction servers arbitrary: tr)
  case Nil
  show ?case by (simp add: sends_refl)
next
  case (Cons server rest)
  have one: "sends tr (tr @ [LibrePost server x target_lang])"
    by (rule sends_snoc) (simp add: is_request_def)
  have more: "sends tr (snd (libre_loop e rest x target_lang (tr @ [LibrePost server x target_lang])))"
    by (rule sends_trans [OF one Cons.IH])
  show ?case
    by (simp add: Let_def one more split: libre_reply.splits option.splits)
qed

lemma translate_with_deepl_sends: "sends tr (snd (translate_with_deepl e x code tr))"
proof -
  have "sends tr (tr @ [DeeplPost x code])"
    by (rule sends_snoc) (simp add: is_request_def)
  then show ?thesis
    by (simp add: translate_with_deepl_def Let_def sends_refl split: deepl_reply.splits option.splits)
qed

lemma refine_with_gpt_sends: "sends tr (snd (refine_with_gpt e x translation target_lang tr))"
proof -
  have "sends tr (tr @ [GptCreate p])" for p
    by (rule sends_snoc) (simp add: is_request_def)
  then show ?thesis
    by (simp add: refine_with_gpt_def Let_def sends_refl split: gpt_reply.splits option.splits)
qed

lemma candidate_translation_sends: "sends tr (snd (candidate_translation e x target_lang tr))"
proof -
  have l: "sends tr (snd (translate_with_libre e x target_lang tr))"
    unfolding translate_with_libre_def by (rule libre_loop_sends)
  have d: "sends tr (snd (translate_with_deepl e x code (snd (translate_with_libre e x target_lang tr))))" for code
    by (rule sends_trans [OF l translate_with_deepl_sends])
  show ?thesis
    by (simp add: candidate_translation_def Let_def case_prod_beta l d split: option.splits)
qed

lemma apply_translation_sends: "sends (trace st) (trace (snd (apply_translation e str st target_lang)))"
proof -
  let ?c = "candidate_translation e (strip str) target_lang (trace st)"
  have c: "sends (trace st) (snd ?c)"
    by (rule candidate_translation_sends)
  have g: "sends (trace st) (snd (refine_with_gpt e (strip str) d target_lang (snd ?c)))" for d
    by (rule sends_trans [OF c refine_with_gpt_sends])
  show ?thesis
    by (simp add: apply_translation_def Let_def case_prod_beta c g sends_refl
        split: option.splits sum.splits)
qed

lemma translate_attrs_sends:
  "sends (trace st) (trace (snd (translate_attrs e target_lang names t st)))"
proof (induction names arbitrary: t st)
  case Nil
  show ?case by (simp add: sends_refl)
next
  case (Cons attr rest)
  show ?case
  proof (cases "attrs t attr")
    case None
    then show ?thesis by (simp add: Cons.IH)
  next
    case (Some v)
    show ?thesis
    proof (cases "v = []")
      case True
      with Some show ?thesis by (simp add: Cons.IH)
    next
      case False
      obtain r st1 where a: "apply_translation e v st target_lang = (r, st1)"
        by (cases "apply_translation e v st target_lang")
      have s1: "sends (trace st) (trace st1)"
        using apply_translation_sends [of st e v target_lang] a by simp
      show ?thesis
      proof (cases r)
        case (Inl exn)
        with Some False a s1 show ?thesis by simp
      next
        case (Inr x)
        have "sends (trace st1)
            (trace (snd (translate_attrs e target_lang rest (t\<lparr>attrs := (attrs t)(attr \<mapsto> x)\<rparr>) st1)))"
          by (rule Cons.IH)
        with s1 have "sends (trace st)
            (trace (snd (translate_attrs e target_lang rest (t\<lparr>attrs := (attrs t)(attr \<mapsto> x)\<rparr>) st1)))"
          by (rule sends_trans)
        with Some False a Inr show ?thesis by simp
      qed
    qed
  qed
qed

lemma process_tag_sends: "sends (trace st) (trace (snd (process_tag e target_lang t st)))"
  by (simp add: process_tag_def Let_def translate_attrs_sends sends_refl del: translate_attrs.simps)

lemma process_tags_sends: "sends (trace st) (trace (snd (process_tags e target_lang ts st)))"
proof (induction ts arbitrary: st)
  case Nil
  show ?case by (simp add: sends_refl)
next
  case (Cons t rest)
  obtain r st1 where a: "process_tag e target_lang t st = (r, st1)"
    by (cases "process_tag e target_lang t st")
  have s1: "sends (trace st) (trace st1)"
    using process_tag_sends [of st e target_lang t] a by simp
  show ?case
  proof (cases r)
    case (Inl exn)
    with a s1 show ?thesis by simp
  next
    case (Inr t')
    have "sends (trace st) (trace (snd (process_tags e target_lang rest st1)))"
      by (rule sends_trans [OF s1 Cons.IH])
    with a Inr show ?thesis
      by (auto split: prod.splits sum.splits)
  qed
qed

lemma translate_strings_sends:
  "sends (trace st) (trace (snd (translate_strings e target_lang nodes st n)))"
proof (induction nodes arbitrary: st n)
  case Nil
  show ?case by (simp add: sends_refl)
next
  case (Cons element rest)
  let ?clean = "strip (content element)"
  show ?case
  proof (cases "parent_name element = ''script'' \<or> parent_name element = ''style'' \<or> ?clean = []")
    case True
    have ih: "translate_strings e target_lang rest st m = (r2, st2) \<Longrightarrow> sends (trace st) (trace st2)"
      for m r2 st2
      using Cons.IH [of st m] by simp
    from True show ?thesis
      by (auto simp: Let_def split: prod.splits sum.splits intro: ih)
  next
    case False
    obtain r st1 where a: "apply_translation e ?clean st target_lang = (r, st1)"
      by (cases "apply_translation e ?clean st target_lang")
    have s1: "sends (trace st) (trace st1)"
      using apply_translation_sends [of st e ?clean target_lang] a by simp
    show ?thesis
    proof (cases r)
      case (Inl exn)
      with False a s1 show ?thesis by (simp add: Let_def)
    next
      case (Inr translated)
      have ih: "translate_strings e target_lang rest st1 m = (r2, st2) \<Longrightarrow> sends (trace st) (trace st2)"
        for m r2 st2
        using sends_trans [OF s1 Cons.IH [of st1 m]] by simp
      from False a Inr show ?thesis
        by (auto simp: Let_def split: prod.splits sum.splits intro: ih)
    qed
  qed
qed

lemma load_memory_events:
  "snd (load_memory s) = [LoadMemory]
   \<or> snd (load_memory s) = [LoadMemory, LogError ''Error parsing translation_db.json. Creating new memory.'']"
  by (simp add: load_memory_def split: sum.splits)

lemma save_memory_events:
  "snd (save_memory b m s) = [SaveMemory]
   \<or> snd (save_memory b m s) = [SaveMemory, LogError ''Failed to save translation memory'']"
  by (simp add: save_memory_def)

lemma walk_and_write_log:
  "\<exists>tr tail. sends (log w) tr
     \<and> log (snd (walk_and_write lib e out_path target_lang mem soup w)) = tr @ tail
     \<and> file_tail out_path (fst (walk_and_write lib e out_path target_lang mem soup w)) tail"
proof -
  let ?soup1 = "if has_html soup then soup\<lparr>html_lang := Some target_lang\<rparr> else soup"
  let ?st0 = "\<lparr>memory = mem, trace = log w\<rparr>"
  obtain r1 st1 where a: "process_tags e target_lang (tags ?soup1) ?st0 = (r1, st1)"
    by (cases "process_tags e target_lang (tags ?soup1) ?st0")
  have s1: "sends (log w) (trace st1)"
    using process_tags_sends [of ?st0 e target_lang "tags ?soup1"] a by simp
  show ?thesis
  proof (cases r1)
    case (Inl exn)
    have "log (snd (walk_and_write lib e out_path target_lang mem soup w)) = trace st1 @ []"
      and "fst (walk_and_write lib e out_path target_lang mem soup w) = Inl exn"
      using a Inl by (simp_all add: walk_and_write_def Let_def)
    with s1 show ?thesis
      by (auto simp: file_tail_def)
  next
    case (Inr tags')
    obtain r2 st2 where b: "translate_strings e target_lang (strings ?soup1) st1 0 = (r2, st2)"
      by (cases "translate_strings e target_lang (strings ?soup1) st1 0")
    have s2: "sends (log w) (trace st2)"
      using sends_trans [OF s1 translate_strings_sends [of st1 e target_lang "strings ?soup1" 0]] b
      by simp
    show ?thesis
    proof (cases r2)
      case (Inl exn)
      have "log (snd (walk_and_write lib e out_path target_lang mem soup w)) = trace st2 @ []"
        and "fst (walk_and_write lib e out_path target_lang mem soup w) = Inl exn"
        using a b Inr Inl by (simp_all add: walk_and_write_def Let_def)
      with s2 show ?thesis
        by (auto simp: file_tail_def)
    next
      case r2: (Inr walked)
      obtain strings' translation_count where d: "walked = (strings', translation_count)"
        by (cases walked)
      show ?thesis
      proof (cases "out_path \<in> unwritable w")
        case True
        have "log (snd (walk_and_write lib e out_path target_lang mem soup w))
            = trace st2 @ [LogError ''Failed to save'']"
          and "fst (walk_and_write lib e out_path target_lang mem soup w) = Inr False"
          using a b Inr r2 d True by (simp_all add: walk_and_write_def Let_def)
        with s2 show ?thesis
          by (auto simp: file_tail_def)
      next
        case False
        let ?saved = "snd (save_memory (store_unwritable w) (memory st2) (store w))"
        have "log (snd (walk_and_write lib e out_path target_lang mem soup w))
            = trace st2 @ (WriteOutput out_path # ?saved)"
          and "fst (walk_and_write lib e out_path target_lang mem soup w) = Inr True"
          using a b Inr r2 d False by (simp_all add: walk_and_write_def Let_def case_prod_beta)
        moreover have "file_tail out_path (Inr True) (WriteOutput out_path # ?saved)"
          using save_memory_events [of "store_unwritable w" "memory st2" "store w"]
          by (auto simp: file_tail_def)
        ultimately show ?thesis
          using s2 by metis
      qed
    qed
  qed
qed

lemma translate_html_file_log:
  "\<exists>mid tail. log (snd (translate_html_file lib e file target_lang force w))
       = log w @ LoadMemory # mid @ tail
     \<and> (\<forall>ev \<in> set mid. is_request ev \<or> (\<exists>msg. ev = LogError msg))
     \<and> file_tail (output_path file target_lang)
          (fst (translate_html_file lib e file target_lang force w)) tail"
proof -
  let ?R = "translate_html_file lib e file target_lang force w"
  let ?out = "output_path file target_lang"
  obtain loaded events where l: "load_memory (store w) = (loaded, events)"
    by (cases "load_memory (store w)")
  from load_memory_events [of "store w"] l
  obtain errs where ev: "events = LoadMemory # errs" and errs: "\<forall>ev \<in> set errs. \<exists>msg. ev = LogError msg"
    by auto
  let ?w1 = "w\<lparr>log := log w @ events\<rparr>"
  have quiet: "log (snd ?R) = log w @ LoadMemory # (errs @ extra) @ [] \<and> fst ?R = Inr False
      \<Longrightarrow> \<forall>ev \<in> set extra. \<exists>msg. ev = LogError msg \<Longrightarrow> ?thesis" for extra
  proof -
    assume h: "log (snd ?R) = log w @ LoadMemory # (errs @ extra) @ [] \<and> fst ?R = Inr False"
      and x: "\<forall>ev \<in> set extra. \<exists>msg. ev = LogError msg"
    have "\<forall>ev \<in> set (errs @ extra). is_request ev \<or> (\<exists>msg. ev = LogError msg)"
      using errs x by auto
    moreover have "file_tail ?out (fst ?R) []"
      using h by (simp add: file_tail_def)
    ultimately show ?thesis
      using h by blast
  qed
  show ?thesis
  proof (cases loaded)
    case (Inl exn)
    have "log (snd ?R) = log w @ LoadMemory # errs @ []" and "fst ?R = Inl exn"
      using l Inl ev by (simp_all add: translate_html_file_def)
    moreover have "file_tail ?out (Inl exn) []"
      by (simp add: file_tail_def)
    ultimately show ?thesis
      using errs by (metis)
  next
    case (Inr mem)
    show ?thesis
    proof (cases "files w ?out \<noteq> None \<and> \<not> force")
      case True
      have "log (snd ?R) = log w @ LoadMemory # (errs @ []) @ [] \<and> fst ?R = Inr False"
        using l Inr ev True by (simp add: translate_html_file_def Let_def)
      then show ?thesis
        by (rule quiet) simp
    next
      case skip: False
      show ?thesis
      proof (cases "files w file")
        case None
        have "log (snd ?R) = log w @ LoadMemory # (errs @ [LogError ''Failed to read or parse'']) @ []
            \<and> fst ?R = Inr False"
          using l Inr ev skip None by (simp add: translate_html_file_def Let_def)
        then show ?thesis
          by (rule quiet) simp
      next
        case (Some readable)
        show ?thesis
        proof (cases readable)
          case None
          have "log (snd ?R) = log w @ LoadMemory # (errs @ [LogError ''Failed to read or parse'']) @ []
              \<and> fst ?R = Inr False"
            using l Inr ev skip Some None by (simp add: translate_html_file_def Let_def)
          then show ?thesis
            by (rule quiet) simp
        next
          case content: (Some file_content)
          show ?thesis
          proof (cases "strip file_content = []")
            case True
            have "log (snd ?R) = log w @ LoadMemory # (errs @ []) @ [] \<and> fst ?R = Inr False"
              using l Inr ev skip Some content True by (simp add: translate_html_file_def Let_def)
            then show ?thesis
              by (rule quiet) simp
          next
            case nonempty: False
            show ?thesis
            proof (cases "parse lib file_content")
              case None
              have "log (snd ?R) = log w @ LoadMemory # (errs @ [LogError ''Failed to read or parse'']) @ []
                  \<and> fst ?R = Inr False"
                using l Inr ev skip Some content nonempty None
                by (simp add: translate_html_file_def Let_def)
              then show ?thesis
                by (rule quiet) simp
            next
              case soup: (Some soup)
              have R: "?R = walk_and_write lib e ?out target_lang mem soup ?w1"
                using l Inr ev skip Some content nonempty soup
                by (auto simp: translate_html_file_def Let_def)
              from walk_and_write_log [of ?w1 lib e ?out target_lang mem soup]
              obtain tr tail where s: "sends (log ?w1) tr" and lg: "log (snd ?R) = tr @ tail"
                and ft: "file_tail ?out (fst ?R) tail"
                unfolding R by blast
              from s obtain new where tr: "tr = log ?w1 @ new" and new: "\<forall>ev \<in> set new. is_request ev"
                by (auto simp: sends_def)
              have "log (snd ?R) = log w @ LoadMemory # (errs @ new) @ tail"
                using lg tr ev by simp
              moreover have "\<forall>ev \<in> set (errs @ new). is_request ev \<or> (\<exists>msg. ev = LogError msg)"
                using errs new by auto
              ultimately show ?thesis
                using ft by blast
            qed
          qed
        qed
      qed
    qed
  qed
qed

lemma not_counted:
  "\<forall>ev \<in> set mid. is_request ev \<or> (\<exists>msg. ev = LogError msg) \<Longrightarrow>
   filter (\<lambda>ev. ev = LoadMemory) mid = [] \<and> filter (\<lambda>ev. ev = SaveMemory) mid = []
   \<and> filter (\<lambda>ev. ev = WriteOutput p) mid = []"
  by (auto simp: filter_empty_conv is_request_def)

lemma translate_html_file_loads:
  "loads (log (snd (translate_html_file lib e file target_lang force w))) = Suc (loads (log w))"
proof -
  from translate_html_file_log [of lib e "file" target_lang force w]
  obtain mid tail where
    lg: "log (snd (translate_html_file lib e file target_lang force w)) = log w @ LoadMemory # mid @ tail"
    and mid: "\<forall>ev \<in> set mid. is_request ev \<or> (\<exists>msg. ev = LogError msg)"
    and tail: "file_tail (output_path file target_lang)
                 (fst (translate_html_file lib e file target_lang force w)) tail"
    by blast
  have "filter (\<lambda>ev. ev = LoadMemory) tail = []"
    using tail by (auto simp: file_tail_def split: if_splits)
  with not_counted [OF mid] show ?thesis
    unfolding lg loads_def by simp
qed

lemma translate_html_file_saves:
  "saves (log (snd (translate_html_file lib e file target_lang force w)))
     = saves (log w) + (if fst (translate_html_file lib e file target_lang force w) = Inr True then 1 else 0)"
proof -
  from translate_html_file_log [of lib e "file" target_lang force w]
  obtain mid tail where
    lg: "log (snd (translate_html_file lib e file target_lang force w)) = log w @ LoadMemory # mid @ tail"
    and mid: "\<forall>ev \<in> set mid. is_request ev \<or> (\<exists>msg. ev = LogError msg)"
    and tail: "file_tail (output_path file target_lang)
                 (fst (translate_html_file lib e file target_lang force w)) tail"
    by blast
  have "length (filter (\<lambda>ev. ev = SaveMemory) tail)
      = (if fst (translate_html_file lib e file target_lang force w) = Inr True then 1 else 0)"
    using tail by (auto simp: file_tail_def split: if_splits)
  with not_counted [OF mid] show ?thesis
    unfolding lg saves_def by simp
qed

lemma translate_html_file_writes:
  assumes "WriteOutput p \<in> set (log (snd (translate_html_file lib e file target_lang force w)))"
  shows "WriteOutput p \<in> set (log w) \<or> p = output_path file target_lang"
proof -
  from translate_html_file_log [of lib e "file" target_lang force w]
  obtain mid tail where
    lg: "log (snd (translate_html_file lib e file target_lang force w)) = log w @ LoadMemory # mid @ tail"
    and mid: "\<forall>ev \<in> set mid. is_request ev \<or> (\<exists>msg. ev = LogError msg)"
    and tail: "file_tail (output_path file target_lang)
                 (fst (translate_html_file lib e file target_lang force w)) tail"
    by blast
  have m: "WriteOutput p \<notin> set mid"
    using mid by (auto simp: is_request_def)
  have "WriteOutput p \<in> set tail \<Longrightarrow> p = output_path file target_lang"
    using tail by (auto simp: file_tail_def split: if_splits)
  with assms m show ?thesis
    unfolding lg by auto
qed

lemma process_files_counts:
  "process_files lib e fs target_lang force n w = (Inr k, w') \<Longrightarrow>
   loads (log w') = loads (log w) + length fs \<and> saves (log w') + n = saves (log w) + k"
proof (induction fs arbitrary: n w)
  case Nil
  then show ?case by simp
next
  case (Cons f rest)
  let ?R = "translate_html_file lib e f target_lang force w"
  from Cons.prems obtain translated w1 where
    a: "?R = (Inr translated, w1)" and
    b: "process_files lib e rest target_lang force (if translated then Suc n else n) w1 = (Inr k, w')"
    by (auto split: prod.splits sum.splits)
  have l1: "loads (log w1) = Suc (loads (log w))"
    using translate_html_file_loads [of lib e f target_lang force w] a by simp
  have s1: "saves (log w1) = saves (log w) + (if translated then 1 else 0)"
    using translate_html_file_saves [of lib e f target_lang force w] a by simp
  from Cons.IH [OF b] l1 s1 show ?case
    by (auto split: if_splits)
qed

lemma process_files_writes:
  "WriteOutput p \<in> set (log (snd (process_files lib e fs target_lang force n w))) \<Longrightarrow>
   WriteOutput p \<in> set (log w) \<or> (\<exists>f \<in> set fs. p = output_path f target_lang)"
proof (induction fs arbitrary: n w)
  case Nil
  then show ?case by simp
next
  case (Cons f rest)
  let ?R = "translate_html_file lib e f target_lang force w"
  obtain r w1 where a: "?R = (r, w1)"
    by (cases ?R)
  have first: "WriteOutput p \<in> set (log w1) \<Longrightarrow>
      WriteOutput p \<in> set (log w) \<or> p = output_path f target_lang"
    using translate_html_file_writes [of p lib e f target_lang force w] a by simp
  show ?case
  proof (cases r)
    case (Inl exn)
    with Cons.prems a first show ?thesis by auto
  next
    case (Inr translated)
    with Cons.prems a
    have "WriteOutput p \<in> set (log (snd (process_files lib e rest target_lang force
        (if translated then Suc n else n) w1)))"
      by simp
    from Cons.IH [OF this] first show ?thesis by auto
  qed
qed

lemma main_writes:
  "WriteOutput p \<in> set (log (snd (main lib e target_lang force fs w))) \<Longrightarrow>
   WriteOutput p \<in> set (log w) \<or> (\<exists>f \<in> set fs. p = output_path f target_lang)"
  using process_files_writes [of p lib e fs target_lang force 0 w]
  by (auto simp: main_def split: if_splits prod.splits sum.splits)





section \<open>What a file leaves in durable storage\<close>










lemma save_memory_no_runs: "chain_runs target_lang u (snd (save_memory b m s)) = 0"
  by (simp add: save_memory_def chain_runs_def)



lemma walk_and_write_files:
  "q \<noteq> out_path \<Longrightarrow>
   files (snd (walk_and_write lib e out_path target_lang mem soup w)) q = files w q"
  by (auto simp: walk_and_write_def Let_def split: prod.splits sum.splits if_splits)




lemma translate_html_file_files:
  "q \<noteq> output_path path target_lang \<Longrightarrow>
   files (snd (translate_html_file lib e path target_lang force w)) q = files w q"
  by (auto simp: translate_html_file_def Let_def case_prod_beta walk_and_write_files
      split: sum.splits option.splits if_splits)



lemma process_files_files:
  "\<forall>f \<in> set fs. q \<noteq> output_path f target_lang \<Longrightarrow>
   files (snd (process_files lib e fs target_lang force n w)) q = files w q"
proof (induction fs arbitrary: n w)
  case Nil
  then show ?case by simp
next
  case (Cons f rest)
  let ?R = "translate_html_file lib e f target_lang force w"
  obtain r w1 where a: "?R = (r, w1)"
    by (cases ?R)
  have f1: "files w1 q = files w q"
    using translate_html_file_files [of q f target_lang lib e force w] a Cons.prems by simp
  show ?case
  proof (cases r)
    case (Inl exn)
    with a f1 show ?thesis by simp
  next
    case (Inr translated)
    have "files (snd (process_files lib e rest target_lang force
        (if translated then Suc n else n) w1)) q = files w1 q"
      by (rule Cons.IH) (use Cons.prems in simp)
    with a Inr f1 show ?thesis by simp
  qed
qed

lemma main_files:
  assumes "\<forall>f \<in> set fs. q \<noteq> output_path f target_lang"
  shows "files (snd (main lib e target_lang force fs w)) q = files w q"
proof (cases "LANG_MAP target_lang = None \<or> fs = []")
  case True
  then show ?thesis
    by (auto simp: main_def)
next
  case False
  obtain r w1 where p: "process_files lib e fs target_lang force 0 w = (r, w1)"
    by (cases "process_files lib e fs target_lang force 0 w")
  have "files w1 q = files w q"
    using process_files_files [OF assms, of lib e force 0 w] p by simp
  with False p show ?thesis
    by (cases r) (simp_all add: main_def)
qed

lemma main_loads:
  assumes "fst (main lib e target_lang force fs w) = Completed k"
  shows "loads (log (snd (main lib e target_lang force fs w))) = loads (log w) + length fs"
proof -
  have l: "LANG_MAP target_lang \<noteq> None"
  proof
    assume "LANG_MAP target_lang = None"
    then have "fst (main lib e target_lang force fs w) = Exit 1"
      by (simp add: main_def)
    with assms show False by simp
  qed
  have f: "fs \<noteq> []"
  proof
    assume "fs = []"
    with l have "fst (main lib e target_lang force fs w) = Exit 1"
      by (simp add: main_def)
    with assms show False by simp
  qed
  from l obtain info where i: "LANG_MAP target_lang = Some info"
    by auto
  obtain r w1 where p: "process_files lib e fs target_lang force 0 w = (r, w1)"
    by (cases "process_files lib e fs target_lang force 0 w")
  have m: "main lib e target_lang force fs w
      = (case r of Inl exn \<Rightarrow> (Raised exn, w1) | Inr c \<Rightarrow> (Completed c, w1))"
    by (simp add: main_def i f p)
  from assms have r: "r = Inr k"
    unfolding m by (cases r) simp_all
  from process_files_counts [of lib e fs target_lang force 0 w k w1] p r
  have "loads (log w1) = loads (log w) + length fs"
    by simp
  then show ?thesis
    unfolding m r by simp
qed

section \<open>The claims about the pipeline\<close>






lemma site_found: "find_html_files ''.'' site_listing = [''./a.html'', ''./b.html'']"
  by (simp add: find_html_files_def site_listing_def os_path_join_def endswith_def
      DEFAULT_EXCLUDED_def)

lemma main_exit:
  assumes "fst (main lib e target_lang force fs w) = Exit c"
  shows "LANG_MAP target_lang = None \<or> fs = []"
proof (rule ccontr)
  assume "\<not> (LANG_MAP target_lang = None \<or> fs = [])"
  then obtain info where i: "LANG_MAP target_lang = Some info" and f: "fs \<noteq> []"
    by auto
  obtain r w1 where p: "process_files lib e fs target_lang force 0 w = (r, w1)"
    by (cases "process_files lib e fs target_lang force 0 w")
  have "main lib e target_lang force fs w
      = (case r of Inl exn \<Rightarrow> (Raised exn, w1) | Inr n \<Rightarrow> (Completed n, w1))"
    by (simp add: main_def i f p)
  with assms show False
    by (cases r) simp_all
qed

lemma site_nothing_listed:
  "filter (listed ''zzz.html'') (find_html_files ''.'' site_listing) = []"
  by (simp add: site_found listed_def basename_def included_names_def strip_def is_space_def)

lemma site_run_nothing:
  "fst (main_with_include toy_lib bonjour_env ''fr'' False (Some ''zzz.html'') ''.'' site_listing site)
     = Exit 1"
  using supported_fr
  by (simp add: main_with_include_def restrict_to_included_def site_nothing_listed main_def)

lemma site_listed: "listed ''a.html'' ''./a.html''" "\<not> listed ''a.html'' ''./b.html''"
  by (simp_all add: listed_def basename_def included_names_def strip_def is_space_def)

lemma site_restricted:
  "restrict_to_included (Some ''a.html'') (find_html_files ''.'' site_listing) = [''./a.html'']"
  by (simp add: site_found restrict_to_included_def site_listed)

lemma site_output:
  "output_path ''./a.html'' ''fr'' = ''./a-fr.html''" "output_path ''./b.html'' ''fr'' = ''./b-fr.html''"
  by (simp_all add: output_path_def replace_def startswith_def)

lemma site_first:
  "translate_html_file toy_lib bonjour_env ''./a.html'' ''fr'' False site =
     (Inr True,
      \<lparr>files = [''./a.html'' \<mapsto> Some ''Hello'', ''./b.html'' \<mapsto> Some ''Hello'',
                ''./head.html'' \<mapsto> Some ''Hello'', ''./a-fr.html'' \<mapsto> Some ''Bonjour''],
       unwritable = {},
       store = Stored [''Hello'' \<mapsto> ''Bonjour''],
       store_unwritable = False,
       log = [LoadMemory, LibrePost ''https://translate.argosopentech.com'' ''Hello'' ''fr'',
              WriteOutput ''./a-fr.html'', SaveMemory]\<rparr>)"
proof -
  have a: "apply_translation bonjour_env ''Hello'' \<lparr>memory = Map.empty, trace = [LoadMemory]\<rparr> ''fr'' =
      (Inr ''Bonjour'',
       \<lparr>memory = [''Hello'' \<mapsto> ''Bonjour''],
        trace = [LoadMemory, LibrePost ''https://translate.argosopentech.com'' ''Hello'' ''fr'']\<rparr>)"
    by (simp add: resolver_defs bonjour_env_def Let_def)
  have w: "walk_and_write toy_lib bonjour_env ''./a-fr.html'' ''fr'' Map.empty
       \<lparr>has_html = True, html_lang = None, tags = [],
        strings = [\<lparr>parent_name = ''p'', content = ''Hello''\<rparr>],
        has_head = False, has_body = True, head_appended = [], body_appended = []\<rparr>
       (site\<lparr>log := [LoadMemory]\<rparr>) =
     (Inr True,
      \<lparr>files = [''./a.html'' \<mapsto> Some ''Hello'', ''./b.html'' \<mapsto> Some ''Hello'',
                ''./head.html'' \<mapsto> Some ''Hello'', ''./a-fr.html'' \<mapsto> Some ''Bonjour''],
       unwritable = {},
       store = Stored [''Hello'' \<mapsto> ''Bonjour''],
       store_unwritable = False,
       log = [LoadMemory, LibrePost ''https://translate.argosopentech.com'' ''Hello'' ''fr'',
              WriteOutput ''./a-fr.html'', SaveMemory]\<rparr>)"
    by (simp add: walk_and_write_def site_def toy_lib_def strip_Hello a inject_code_def
        save_memory_def Let_def)
  show ?thesis
    using w
    by (simp add: translate_html_file_def load_memory_missing site_output site_def
        toy_lib_def strip_Hello Let_def)
qed

lemma site_run:
  "main_with_include toy_lib bonjour_env ''fr'' False (Some ''a.html'') ''.'' site_listing site =
     (Completed 1,
      \<lparr>files = [''./a.html'' \<mapsto> Some ''Hello'', ''./b.html'' \<mapsto> Some ''Hello'',
                ''./head.html'' \<mapsto> Some ''Hello'', ''./a-fr.html'' \<mapsto> Some ''Bonjour''],
       unwritable = {},
       store = Stored [''Hello'' \<mapsto> ''Bonjour''],
       store_unwritable = False,
       log = [LoadMemory, LibrePost ''https://translate.argosopentech.com'' ''Hello'' ''fr'',
              WriteOutput ''./a-fr.html'', SaveMemory]\<rparr>)"
  using supported_fr
  by (simp add: main_with_include_def site_restricted main_def site_first)

text \<open>
  Claim C9. With \<open>--include\<close> given, the pipeline processes the files found whose name
  is in the list, and only those: every output the run writes is the output of a listed
  file that was found; a path that is not the output of such a file holds after the run
  what it held before; a run that completes has called \<open>translate_html_file\<close>, and
  so loaded the memory, once for each listed file found and for no other; and with a
  supported target language the run ends for want of input files only when no listed
  file was found.
\<close>

theorem include_restricts_processing:
  "(WriteOutput p \<in> set (log (snd (main_with_include lib e target_lang force (Some comma_list)
                                     directory listing w)))
      \<and> WriteOutput p \<notin> set (log w) \<longrightarrow>
      (\<exists>f \<in> set (find_html_files directory listing).
          listed comma_list f \<and> p = output_path f target_lang))
   \<and> ((\<forall>f \<in> set (find_html_files directory listing).
          listed comma_list f \<longrightarrow> q \<noteq> output_path f target_lang) \<longrightarrow>
        files (snd (main_with_include lib e target_lang force (Some comma_list) directory listing w)) q
          = files w q)
   \<and> (fst (main_with_include lib e target_lang force (Some comma_list) directory listing w)
          = Completed k \<longrightarrow>
        loads (log (snd (main_with_include lib e target_lang force (Some comma_list)
                           directory listing w)))
          = loads (log w) + length (filter (listed comma_list) (find_html_files directory listing)))
   \<and> (fst (main_with_include lib e target_lang force (Some comma_list) directory listing w) = Exit c
        \<longrightarrow>
        LANG_MAP target_lang = None
        \<or> filter (listed comma_list) (find_html_files directory listing) = [])"
proof (intro conjI impI)
  let ?found = "find_html_files directory listing"
  let ?fs = "restrict_to_included (Some comma_list) ?found"
  have fs: "?fs = filter (listed comma_list) ?found"
    by (simp add: restrict_to_included_def)
  have m: "main_with_include lib e target_lang force (Some comma_list) directory listing w
      = main lib e target_lang force ?fs w"
    by (simp add: main_with_include_def)
  {
    assume h: "WriteOutput p \<in> set (log (snd (main_with_include lib e target_lang force
        (Some comma_list) directory listing w))) \<and> WriteOutput p \<notin> set (log w)"
    then have "WriteOutput p \<in> set (log (snd (main lib e target_lang force ?fs w)))"
      unfolding m by blast
    from main_writes [OF this] h obtain f where "f \<in> set ?fs" and "p = output_path f target_lang"
      by blast
    then show "\<exists>f \<in> set ?found. listed comma_list f \<and> p = output_path f target_lang"
      unfolding fs by auto
  }
  {
    assume "\<forall>f \<in> set ?found. listed comma_list f \<longrightarrow> q \<noteq> output_path f target_lang"
    then have "\<forall>f \<in> set ?fs. q \<noteq> output_path f target_lang"
      unfolding fs by auto
    from main_files [OF this]
    show "files (snd (main_with_include lib e target_lang force (Some comma_list) directory listing w)) q
        = files w q"
      unfolding m .
  }
  {
    assume "fst (main_with_include lib e target_lang force (Some comma_list) directory listing w)
        = Completed k"
    then have "fst (main lib e target_lang force ?fs w) = Completed k"
      unfolding m .
    from main_loads [OF this]
    show "loads (log (snd (main_with_include lib e target_lang force (Some comma_list)
                           directory listing w)))
        = loads (log w) + length (filter (listed comma_list) ?found)"
      unfolding m fs .
  }
  {
    assume "fst (main_with_include lib e target_lang force (Some comma_list) directory listing w)
        = Exit c"
    then have "fst (main lib e target_lang force ?fs w) = Exit c"
      unfolding m .
    from main_exit [OF this]
    show "LANG_MAP target_lang = None \<or> filter (listed comma_list) ?found = []"
      unfolding fs .
  }
qed

theorem include_restricts_processing_witness:
  "fst (main_with_include toy_lib bonjour_env ''fr'' False (Some ''a.html'') ''.'' site_listing site)
     = Completed 1
   \<and> WriteOutput ''./a-fr.html''
       \<in> set (log (snd (main_with_include toy_lib bonjour_env ''fr'' False (Some ''a.html'') ''.''
                          site_listing site)))
   \<and> WriteOutput ''./a-fr.html'' \<notin> set (log site)
   \<and> ''./a.html'' \<in> set (find_html_files ''.'' site_listing) \<and> listed ''a.html'' ''./a.html''
   \<and> ''./a-fr.html'' = output_path ''./a.html'' ''fr''
   \<and> ''./b.html'' \<in> set (find_html_files ''.'' site_listing) \<and> \<not> listed ''a.html'' ''./b.html''
   \<and> ''./b-fr.html'' \<noteq> output_path ''./a.html'' ''fr''
   \<and> files (snd (main_with_include toy_lib bonjour_env ''fr'' False (Some ''a.html'') ''.''
                   site_listing site)) ''./b-fr.html'' = files site ''./b-fr.html''
   \<and> files site ''./b-fr.html'' = None
   \<and> files (snd (main_with_include toy_lib bonjour_env ''fr'' False (Some ''a.html'') ''.''
                   site_listing site)) ''./a-fr.html'' = Some (Some ''Bonjour'')
   \<and> loads (log (snd (main_with_include toy_lib bonjour_env ''fr'' False (Some ''a.html'') ''.''
                        site_listing site)))
       = loads (log site) + length (filter (listed ''a.html'') (find_html_files ''.'' site_listing))
   \<and> length (filter (listed ''a.html'') (find_html_files ''.'' site_listing)) = 1
   \<and> fst (main_with_include toy_lib bonjour_env ''fr'' False (Some ''zzz.html'') ''.'' site_listing site)
       = Exit 1
   \<and> LANG_MAP ''fr'' \<noteq> None
   \<and> filter (listed ''zzz.html'') (find_html_files ''.'' site_listing) = []"
proof -
  let ?run = "main_with_include toy_lib bonjour_env ''fr'' False (Some ''a.html'') ''.'' site_listing site"
  note c = include_restricts_processing [where lib = toy_lib and e = bonjour_env
      and target_lang = "''fr''" and force = False and comma_list = "''a.html''"
      and directory = "''.''" and listing = site_listing and w = site and k = 1]
  have r: "fst ?run = Completed 1"
    by (simp add: site_run)
  have wr: "WriteOutput ''./a-fr.html'' \<in> set (log (snd ?run))
      \<and> WriteOutput ''./a-fr.html'' \<notin> set (log site)"
    unfolding site_run by (simp add: site_def)
  from c [where p = "''./a-fr.html''"] wr
  have c1: "\<exists>f \<in> set (find_html_files ''.'' site_listing).
         listed ''a.html'' f \<and> ''./a-fr.html'' = output_path f ''fr''"
    by blast
  have b: "''./b.html'' \<in> set (find_html_files ''.'' site_listing) \<and> \<not> listed ''a.html'' ''./b.html''"
    by (simp add: site_found site_listed)
  have h2: "\<forall>f \<in> set (find_html_files ''.'' site_listing).
         listed ''a.html'' f \<longrightarrow> ''./b-fr.html'' \<noteq> output_path f ''fr''"
    by (simp add: site_found site_listed site_output)
  from c [where q = "''./b-fr.html''"] h2
  have c2: "files (snd ?run) ''./b-fr.html'' = files site ''./b-fr.html''"
    by blast
  have none: "files site ''./b-fr.html'' = None"
    by (simp add: site_def)
  have a: "files (snd ?run) ''./a-fr.html'' = Some (Some ''Bonjour'')"
    unfolding site_run by simp
  from c r have c3: "loads (log (snd ?run))
       = loads (log site) + length (filter (listed ''a.html'') (find_html_files ''.'' site_listing))"
    by blast
  have n: "length (filter (listed ''a.html'') (find_html_files ''.'' site_listing)) = 1"
    by (simp add: site_found site_listed)
  from include_restricts_processing [where lib = toy_lib and e = bonjour_env
      and target_lang = "''fr''" and force = False and comma_list = "''zzz.html''"
      and directory = "''.''" and listing = site_listing and w = site and c = 1
      and p = "[]" and q = "[]" and k = 0]
    site_run_nothing supported_fr
  have c4: "filter (listed ''zzz.html'') (find_html_files ''.'' site_listing) = []"
    by blast
  have a1: "''./a.html'' \<in> set (find_html_files ''.'' site_listing) \<and> listed ''a.html'' ''./a.html''
      \<and> ''./a-fr.html'' = output_path ''./a.html'' ''fr''
      \<and> ''./b-fr.html'' \<noteq> output_path ''./a.html'' ''fr''"
    by (simp add: site_found site_listed site_output)
  from r wr a1 b c2 none a c3 n site_run_nothing supported_fr c4 show ?thesis
    by blast
qed

end
